theory Spec2Isabelle
  imports Main "HOL-Library.Word"
begin

section \<open>Python strings and bytes\<close>

text \<open>
  File, folder, site and library names, e-mail addresses and identifiers are Python
  \<open>str\<close> values; they are modelled as \<open>string\<close>, one \<open>char\<close> per code point, which covers
  the code points 0 to 255. The text a decoder returns is a list of code points of any
  size (\<open>ustr\<close>), because UTF-8 decoding yields code points beyond 255. File contents are
  lists of bytes.
\<close>

type_synonym ustr = "nat list"
type_synonym bytes = "8 word list"

text \<open>\<open>str.isspace\<close> of one code point: the characters \<open>str.strip()\<close> removes.\<close>

definition py_isspace :: "nat \<Rightarrow> bool" where
  "py_isspace c \<longleftrightarrow>
     (9 \<le> c \<and> c \<le> 13) \<or> (28 \<le> c \<and> c \<le> 32) \<or> c = 133 \<or> c = 160 \<or> c = 5760 \<or>
     (8192 \<le> c \<and> c \<le> 8202) \<or> c = 8232 \<or> c = 8233 \<or> c = 8239 \<or> c = 8287 \<or> c = 12288"

definition strip_by :: "('a \<Rightarrow> bool) \<Rightarrow> 'a list \<Rightarrow> 'a list" where
  "strip_by P xs = rev (dropWhile P (rev (dropWhile P xs)))"

text \<open>\<open>s.strip()\<close> on decoded text and on a name.\<close>

definition ustr_strip :: "ustr \<Rightarrow> ustr" where
  "ustr_strip = strip_by py_isspace"

definition str_strip :: "string \<Rightarrow> string" where
  "str_strip = strip_by (\<lambda>c. py_isspace (of_char c))"

text \<open>
  \<open>s.lower()\<close>: on the code points 0 to 255 the cased capitals are A to Z and the
  Latin-1 capitals 192 to 222 without the multiplication sign 215; each maps to the
  code point 32 above it.
\<close>

definition lower_char :: "char \<Rightarrow> char" where
  "lower_char c =
     (let n = (of_char c :: nat)
      in if (65 \<le> n \<and> n \<le> 90) \<or> (192 \<le> n \<and> n \<le> 222 \<and> n \<noteq> 215)
         then char_of (n + 32) else c)"

definition py_lower :: "string \<Rightarrow> string" where
  "py_lower s = map lower_char s"

text \<open>\<open>s.split(c)\<close> for a one-character separator: never the empty list.\<close>

fun py_split :: "'a \<Rightarrow> 'a list \<Rightarrow> 'a list list" where
  "py_split c [] = [[]]"
| "py_split c (x # xs) =
     (if x = c then [] # py_split c xs
      else (case py_split c xs of [] \<Rightarrow> [[x]] | w # ws \<Rightarrow> (x # w) # ws))"

text \<open>\<open>sep.join(parts)\<close>.\<close>

fun py_join :: "'a list \<Rightarrow> 'a list list \<Rightarrow> 'a list" where
  "py_join sep [] = []"
| "py_join sep [x] = x"
| "py_join sep (x # y # ys) = x @ sep @ py_join sep (y # ys)"

text \<open>\<open>s.lstrip("/")\<close> removes every leading slash.\<close>

definition lstrip_slash :: "string \<Rightarrow> string" where
  "lstrip_slash s = dropWhile (\<lambda>c. c = CHR ''/'') s"

text \<open>\<open>pat in s\<close> for strings.\<close>

fun contains :: "'a list \<Rightarrow> 'a list \<Rightarrow> bool" where
  "contains pat [] \<longleftrightarrow> pat = []"
| "contains pat (x # xs) \<longleftrightarrow> take (length pat) (x # xs) = pat \<or> contains pat xs"

text \<open>A string literal as decoded text.\<close>

definition lit :: "string \<Rightarrow> ustr" where
  "lit s = map of_char s"

subsection \<open>\<open>bytes.decode("utf-8", errors="ignore")\<close>\<close>

text \<open>
  The decoder of the \<open>utf-8\<close> codec reads one sequence at a time. A well-formed sequence
  gives its code point. At a malformed one the error handler \<open>ignore\<close> contributes no
  character and decoding resumes behind the malformed part: one byte for a byte that
  cannot start a sequence, the bytes before the first wrong continuation byte otherwise,
  and everything that is left when the input ends inside a sequence.
\<close>

definition is_cont :: "nat \<Rightarrow> bool" where
  "is_cont c \<longleftrightarrow> 128 \<le> c \<and> c < 192"

text \<open>Second byte after a three-byte lead: no overlong form (E0), no surrogate (ED).\<close>

definition second_ok3 :: "nat \<Rightarrow> nat \<Rightarrow> bool" where
  "second_ok3 b c \<longleftrightarrow> is_cont c \<and> \<not> (if c < 160 then b = 224 else b = 237)"

text \<open>Second byte after a four-byte lead: no overlong form (F0), nothing above 10FFFF (F4).\<close>

definition second_ok4 :: "nat \<Rightarrow> nat \<Rightarrow> bool" where
  "second_ok4 b c \<longleftrightarrow> is_cont c \<and> \<not> (if c < 144 then b = 240 else b = 244)"

fun utf8_ignore :: "nat list \<Rightarrow> ustr" where
  "utf8_ignore [] = []"
| "utf8_ignore (b # bs) =
     (if b < 128 then b # utf8_ignore bs
      else if b < 194 then utf8_ignore bs
      else if b < 224 then
        (case bs of
           [] \<Rightarrow> []
         | c # cs \<Rightarrow>
             if is_cont c then ((b - 192) * 64 + (c - 128)) # utf8_ignore cs
             else utf8_ignore bs)
      else if b < 240 then
        (case bs of
           [] \<Rightarrow> []
         | c # cs \<Rightarrow>
             if \<not> second_ok3 b c then utf8_ignore bs
             else (case cs of
                     [] \<Rightarrow> []
                   | d # ds \<Rightarrow>
                       if \<not> is_cont d then utf8_ignore cs
                       else ((b - 224) * 4096 + (c - 128) * 64 + (d - 128)) # utf8_ignore ds))
      else if b < 245 then
        (case bs of
           [] \<Rightarrow> []
         | c # cs \<Rightarrow>
             if \<not> second_ok4 b c then utf8_ignore bs
             else (case cs of
                     [] \<Rightarrow> []
                   | d # ds \<Rightarrow>
                       if \<not> is_cont d then utf8_ignore cs
                       else (case ds of
                               [] \<Rightarrow> []
                             | e # es \<Rightarrow>
                                 if \<not> is_cont e then utf8_ignore ds
                                 else ((b - 240) * 262144 + (c - 128) * 4096
                                         + (d - 128) * 64 + (e - 128)) # utf8_ignore es)))
      else utf8_ignore bs)"

definition decode_utf8_ignore :: "bytes \<Rightarrow> ustr" where
  "decode_utf8_ignore stream = utf8_ignore (map unat stream)"

section \<open>Text extraction\<close>

datatype error = HTTPError | ParseError | IsADirectoryError | IndexError

text \<open>
  The document parsers are libraries outside the repository (pdfplumber, python-docx,
  python-pptx, openpyxl, xlrd). Each is a parameter: it either raises or delivers the
  structure \<open>extract_text\<close> iterates over.
  \<^item> PDF: the pages, each with the result of \<open>page.extract_text()\<close>, which may be \<open>None\<close>;
  \<^item> DOCX: the paragraph texts;
  \<^item> PPTX: the slides, each a list of shapes, a shape carrying the paragraph texts of its
    text frame when \<open>has_text_frame\<close> holds;
  \<^item> XLSX/XLSM and XLS: the sheets, each a name and its rows, a cell being \<open>None\<close> or the
    result of \<open>str(v)\<close>.
\<close>

record parsers =
  pdf_pages :: "bytes \<Rightarrow> error + ustr option list"
  docx_paragraphs :: "bytes \<Rightarrow> error + ustr list"
  pptx_slides :: "bytes \<Rightarrow> error + ustr list option list list"
  xlsx_sheets :: "bytes \<Rightarrow> error + (ustr \<times> ustr option list list) list"
  xls_sheets :: "bytes \<Rightarrow> error + (ustr \<times> ustr option list list) list"

text \<open>The PDF loop: \<open>if t: text += t + "\n"\<close>.\<close>

fun pdf_text :: "ustr option list \<Rightarrow> ustr" where
  "pdf_text [] = []"
| "pdf_text (t # ts) =
     (case t of
        None \<Rightarrow> pdf_text ts
      | Some s \<Rightarrow> if s = [] then pdf_text ts else s @ lit ''\<newline>'' @ pdf_text ts)"

text \<open>The PPTX loops: every paragraph of every shape with a text frame, slide by slide.\<close>

definition pptx_text :: "ustr list option list list \<Rightarrow> ustr list" where
  "pptx_text slides =
     concat (map (\<lambda>shapes. concat (map (\<lambda>shape. case shape of None \<Rightarrow> [] | Some ps \<Rightarrow> ps)
                                        shapes))
                 slides)"

text \<open>The spreadsheet loops: a marker line, one line per row, a blank line.\<close>

definition row_text :: "ustr option list \<Rightarrow> ustr" where
  "row_text row = py_join (lit '','') (map (\<lambda>v. case v of None \<Rightarrow> [] | Some s \<Rightarrow> s) row)"

definition sheet_lines :: "(ustr \<times> ustr option list list) list \<Rightarrow> ustr list" where
  "sheet_lines sheets =
     concat (map (\<lambda>(sheet, rows). [lit ''['' @ sheet @ lit '']''] @ map row_text rows @ [[]])
                 sheets)"

text \<open>The dispatch key: \<open>name.lower().split(".")[-1]\<close>.\<close>

definition suffix_of :: "string \<Rightarrow> string" where
  "suffix_of name = last (py_split CHR ''.'' (py_lower name))"

text \<open>
  \<open>extract_text\<close>. Every exception inside the body is caught and gives \<open>None\<close>; the legacy
  spreadsheet has a handler of its own, after which control falls through to the
  plain-text test, which a name ending in \<open>xls\<close> fails.
\<close>

definition extract_text :: "parsers \<Rightarrow> string \<Rightarrow> bytes \<Rightarrow> ustr option" where
  "extract_text P name stream =
     (let suffix = suffix_of name
      in if suffix = ''pdf'' then
           (case pdf_pages P stream of
              Inl e \<Rightarrow> None
            | Inr pages \<Rightarrow> Some (ustr_strip (pdf_text pages)))
         else if suffix = ''docx'' then
           (case docx_paragraphs P stream of
              Inl e \<Rightarrow> None
            | Inr ps \<Rightarrow> Some (ustr_strip (py_join (lit ''\<newline>'') ps)))
         else if suffix = ''pptx'' then
           (case pptx_slides P stream of
              Inl e \<Rightarrow> None
            | Inr slides \<Rightarrow> Some (ustr_strip (py_join (lit ''\<newline>'') (pptx_text slides))))
         else if suffix = ''csv'' then
           Some (ustr_strip (decode_utf8_ignore stream))
         else if suffix \<in> set [''xlsx'', ''xlsm''] then
           (case xlsx_sheets P stream of
              Inl e \<Rightarrow> None
            | Inr sheets \<Rightarrow> Some (ustr_strip (py_join (lit ''\<newline>'') (sheet_lines sheets))))
         else if suffix = ''xls'' then
           (case xls_sheets P stream of
              Inl e \<Rightarrow>
                if suffix \<in> set [''txt'', ''md'', ''json'', ''xml'', ''html'']
                then Some (ustr_strip (decode_utf8_ignore stream)) else None
            | Inr sheets \<Rightarrow> Some (ustr_strip (py_join (lit ''\<newline>'') (sheet_lines sheets))))
         else if suffix \<in> set [''txt'', ''md'', ''json'', ''xml'', ''html''] then
           Some (ustr_strip (decode_utf8_ignore stream))
         else None)"

section \<open>Remote items and the metadata record\<close>

text \<open>
  A drive item as the listing returns it. \<open>name\<close>, \<open>id\<close> and \<open>lastModifiedDateTime\<close> are
  read with a subscript and are part of every item the service returns; the other
  attributes are read with \<open>get\<close> and may be missing. \<open>item_created_by\<close> and
  \<open>item_modified_by\<close> are the \<open>user\<close> entries below \<open>createdBy\<close> and \<open>lastModifiedBy\<close>,
  \<open>item_mime\<close> and \<open>item_hashes\<close> the entries below \<open>file\<close>.
\<close>

record user_ref =
  displayName :: "string option"
  ref_email :: "string option"

record hashes =
  quickXorHash :: "string option"
  sha1Hash :: "string option"

record item =
  item_name :: string
  item_id :: string
  item_mime :: "string option"
  item_hashes :: "hashes option"
  item_created_by :: "user_ref option"
  item_created_at :: "string option"
  item_modified_by :: "user_ref option"
  item_modified_at :: string
  item_size :: "int option"
  item_web_url :: "string option"

record site_info =
  siteName :: string
  siteId :: string
  webUrl :: string

text \<open>
  The machine the program runs on: the clock reading
  \<open>datetime.now(timezone.utc).isoformat()\<close> and \<open>format_bytes\<close>, which renders a
  floating-point quotient with two decimals. No property below depends on either value,
  so both are parameters.
\<close>

record host =
  now_iso :: string
  format_bytes :: "int \<Rightarrow> string"

text \<open>The values a metadata dictionary holds; the dictionary keeps its insertion order.\<close>

datatype pyval = PStr string | PText ustr | PInt int | PBool bool | PNone

type_synonym metadata = "(string \<times> pyval) list"

definition get_or :: "'a option \<Rightarrow> 'a \<Rightarrow> 'a" where
  "get_or v d = (case v of None \<Rightarrow> d | Some x \<Rightarrow> x)"

definition user_field :: "user_ref option \<Rightarrow> (user_ref \<Rightarrow> string option) \<Rightarrow> string" where
  "user_field u f = (case u of None \<Rightarrow> ''Unknown'' | Some r \<Rightarrow> get_or (f r) ''Unknown'')"

definition build_metadata ::
  "host \<Rightarrow> item \<Rightarrow> string \<Rightarrow> ustr option \<Rightarrow> site_info \<Rightarrow> string \<Rightarrow> metadata" where
  "build_metadata H item current_path extracted_text site_info library_name =
     [(''fileName'', PStr (item_name item)),
      (''fileExtension'',
         PStr (if CHR ''.'' \<in> set (item_name item)
               then py_lower (last (py_split CHR ''.'' (item_name item))) else [])),
      (''fileId'', PStr (item_id item)),
      (''sharePointPath'', PStr current_path),
      (''mimeType'', PStr (get_or (item_mime item) ''unknown'')),
      (''siteName'', PStr (siteName site_info)),
      (''siteId'', PStr (siteId site_info)),
      (''siteUrl'', PStr (webUrl site_info)),
      (''libraryName'', PStr library_name),
      (''createdBy'', PStr (user_field (item_created_by item) displayName)),
      (''createdByEmail'', PStr (user_field (item_created_by item) ref_email)),
      (''createdAt'', PStr (get_or (item_created_at item) ''Unknown'')),
      (''lastModifiedBy'', PStr (user_field (item_modified_by item) displayName)),
      (''lastModifiedByEmail'', PStr (user_field (item_modified_by item) ref_email)),
      (''lastModifiedAt'', PStr (item_modified_at item)),
      (''size'', PInt (get_or (item_size item) 0)),
      (''sizeReadable'', PStr (format_bytes H (get_or (item_size item) 0))),
      (''webUrl'', (case item_web_url item of None \<Rightarrow> PNone | Some u \<Rightarrow> PStr u)),
      (''syncedAt'', PStr (now_iso H)),
      (''hasExtractedText'',
         PBool (case extracted_text of None \<Rightarrow> False | Some t \<Rightarrow> 0 < length t))]
     @ (case item_hashes item of
          None \<Rightarrow> []
        | Some h \<Rightarrow>
            (case quickXorHash h of None \<Rightarrow> [] | Some q \<Rightarrow> [(''quickXorHash'', PStr q)])
            @ (case sha1Hash h of None \<Rightarrow> [] | Some q \<Rightarrow> [(''sha1Hash'', PStr q)]))
     @ (case extracted_text of
          None \<Rightarrow> []
        | Some t \<Rightarrow>
            if t = [] then []
            else [(''contentText'', PText t), (''contentTextLength'', PInt (int (length t)))])"

text \<open>\<open>sanitize_folder_name\<close>: each invalid character becomes an underscore, then \<open>strip\<close>.\<close>

definition invalid_chars :: "char list" where
  "invalid_chars =
     [CHR ''<'', CHR ''>'', CHR '':'', CHR 0x22, CHR ''/'', CHR 0x5C, CHR ''|'', CHR ''?'',
      CHR ''*'']"

definition str_replace :: "char \<Rightarrow> char \<Rightarrow> string \<Rightarrow> string" where
  "str_replace old new s = map (\<lambda>c. if c = old then new else c) s"

definition sanitize_folder_name :: "string \<Rightarrow> string" where
  "sanitize_folder_name name =
     str_strip (fold (\<lambda>char n. str_replace char CHR ''_'' n) invalid_chars name)"

section \<open>Permissions\<close>

text \<open>
  A raw grant of the permissions listing. \<open>grantedToV2\<close> is the current shape,
  \<open>grantedTo\<close> the legacy one; \<open>inheritedFrom\<close> is a dictionary, which Python takes as
  true when it has an entry.
\<close>

record link_facet =
  scope :: "string option"

record principal =
  principal_id :: "string option"
  principal_email :: "string option"

record identity_set =
  ident_user :: "principal option"
  ident_group :: "principal option"

record permission =
  link :: "link_facet option"
  grantedToV2 :: "identity_set option"
  grantedTo :: "identity_set option"
  inheritedFrom :: "(string \<times> string) list option"

record policy =
  allowedUsers :: "string list"
  allowedGroups :: "string list"
  hasInheritedPermissions :: bool
  isPublicWithinOrg :: bool
  permissionError :: "error option"

definition link_is_public :: "permission \<Rightarrow> bool" where
  "link_is_public perm =
     (case link perm of
        None \<Rightarrow> False
      | Some l \<Rightarrow> scope l \<in> set [Some ''anonymous'', Some ''organization''])"

definition user_emails :: "identity_set \<Rightarrow> string list" where
  "user_emails granted =
     (case ident_user granted of
        None \<Rightarrow> []
      | Some u \<Rightarrow>
          (case principal_email u of
             None \<Rightarrow> []
           | Some user_email \<Rightarrow> if user_email \<noteq> [] then [py_lower user_email] else []))"

definition group_ids :: "identity_set \<Rightarrow> string list" where
  "group_ids granted =
     (case ident_group granted of
        None \<Rightarrow> []
      | Some g \<Rightarrow>
          (case principal_id g of
             None \<Rightarrow> []
           | Some group_id \<Rightarrow> if group_id \<noteq> [] then [group_id] else [])
          @ (case principal_email g of
               None \<Rightarrow> []
             | Some group_email \<Rightarrow> if group_email \<noteq> [] then [py_lower group_email] else []))"

text \<open>
  The loop over the grants with its three accumulators \<open>allowed_users\<close>,
  \<open>allowed_groups\<close> and \<open>is_public\<close>.
\<close>

fun perm_loop ::
  "permission list \<Rightarrow> string list \<times> string list \<times> bool \<Rightarrow> string list \<times> string list \<times> bool" where
  "perm_loop [] acc = acc"
| "perm_loop (perm # perms) (allowed_users, allowed_groups, is_public) =
     (if link_is_public perm then perm_loop perms (allowed_users, allowed_groups, True)
      else case grantedToV2 perm of
             Some granted \<Rightarrow>
               perm_loop perms
                 (allowed_users @ user_emails granted, allowed_groups @ group_ids granted,
                  is_public)
           | None \<Rightarrow>
               (case grantedTo perm of
                  Some granted \<Rightarrow>
                    perm_loop perms (allowed_users @ user_emails granted, allowed_groups,
                                     is_public)
                | None \<Rightarrow> perm_loop perms (allowed_users, allowed_groups, is_public)))"

definition marks_inheritance :: "permission \<Rightarrow> bool" where
  "marks_inheritance perm =
     (case inheritedFrom perm of None \<Rightarrow> False | Some ref \<Rightarrow> ref \<noteq> [])"

text \<open>
  The body of \<open>get_file_permissions\<close> behind the request. \<open>list(set(xs))\<close> keeps one copy
  of every element in an order Python does not fix; \<open>remdups\<close> stands for it, and the
  properties below speak of membership and of the number of entries only.
\<close>

definition normalize :: "permission list \<Rightarrow> policy" where
  "normalize permissions =
     (case perm_loop permissions ([], [], False) of
        (allowed_users, allowed_groups, is_public) \<Rightarrow>
          \<lparr> allowedUsers = remdups allowed_users,
            allowedGroups = remdups allowed_groups,
            hasInheritedPermissions =
              (length permissions = 0 \<or> list_ex marks_inheritance permissions),
            isPublicWithinOrg = is_public,
            permissionError = None \<rparr>)"

section \<open>The remote service and the local file system\<close>

text \<open>
  The folder hierarchy of a library is a tree: a folder carries the answer its children
  request gets, which is a failed request or the list of child nodes. \<open>"folder" in item\<close>
  holds for the items of \<open>FolderN\<close> nodes and for no others.
\<close>

datatype node = FileN item | FolderN item listing
and listing = ListFail error | Listing "node list"

text \<open>
  The pages of the site search, followed through \<open>@odata.nextLink\<close>; a site entry has the
  attributes \<open>id\<close>, \<open>webUrl\<close> and \<open>displayName\<close>, each read with \<open>get\<close>.
\<close>

record site_json =
  sj_id :: "string option"
  sj_webUrl :: "string option"
  sj_displayName :: "string option"

datatype site_pages =
  PageFail error | LastPage "site_json list" | NextPage "site_json list" site_pages

text \<open>A drive of a site; the service gives every drive an \<open>id\<close> and a \<open>name\<close>.\<close>

record library =
  lib_id :: string
  lib_name :: string
  lib_driveType :: "string option"
  lib_webUrl :: "string option"

text \<open>
  What the program sees of the outside during one run: the result of
  \<open>get_graph_token()\<close>, the answers of the service by request, the parsers and the host.
  The content request is keyed by site, drive and item identifier, the root listing by
  site and drive.
\<close>

record world =
  token :: "error + string"
  sites_search :: site_pages
  site_resource :: "string \<Rightarrow> error + site_json"
  site_drives_resp :: "string \<Rightarrow> error + library list"
  root_children :: "string \<Rightarrow> string \<Rightarrow> listing"
  item_content :: "string \<Rightarrow> string \<Rightarrow> string \<Rightarrow> error + bytes"
  item_permissions :: "string \<Rightarrow> string \<Rightarrow> string \<Rightarrow> error + permission list"
  doc_parsers :: parsers
  machine :: host

text \<open>
  The local file system, by path: a directory, or a regular file with the document
  \<open>json.dump\<close> wrote into it, kept as the dictionary that was serialised.
\<close>

datatype fsnode = Dir | File metadata

type_synonym fs = "string \<rightharpoonup> fsnode"

text \<open>
  The way a statement ends: normally, or with an exception that leaves it; both with the
  file system as it is at that moment.
\<close>

datatype outcome = Done fs | Raised error fs

fun state_of :: "outcome \<Rightarrow> fs" where
  "state_of (Done s) = s"
| "state_of (Raised e s) = s"

fun is_raised :: "outcome \<Rightarrow> bool" where
  "is_raised (Done s) = False"
| "is_raised (Raised e s) = True"

section \<open>Requests\<close>

text \<open>
  \<open>get_file_permissions\<close>: the token is read before the \<open>try\<close>, the request is made
  inside it and its failure gives the default policy with the error recorded.
\<close>

definition get_file_permissions :: "world \<Rightarrow> string \<Rightarrow> string \<Rightarrow> string \<Rightarrow> error + policy" where
  "get_file_permissions W site_id drive_id iid =
     (case token W of
        Inl e \<Rightarrow> Inl e
      | Inr t \<Rightarrow>
          (case item_permissions W site_id drive_id iid of
             Inl e \<Rightarrow>
               Inr \<lparr> allowedUsers = [], allowedGroups = [], hasInheritedPermissions = True,
                     isPublicWithinOrg = False, permissionError = Some e \<rparr>
           | Inr permissions \<Rightarrow> Inr (normalize permissions)))"

definition get_site_info :: "world \<Rightarrow> string \<Rightarrow> error + site_info" where
  "get_site_info W site_id =
     (case token W of
        Inl e \<Rightarrow> Inl e
      | Inr t \<Rightarrow>
          (case site_resource W site_id of
             Inl e \<Rightarrow> Inl e
           | Inr site_data \<Rightarrow>
               Inr \<lparr> siteName = get_or (sj_displayName site_data) ''Unknown'',
                     siteId = get_or (sj_id site_data) ''Unknown'',
                     webUrl = get_or (sj_webUrl site_data) ''Unknown'' \<rparr>))"

text \<open>\<open>get_all_document_libraries\<close>: a failed request is caught and gives no libraries.\<close>

definition get_all_document_libraries :: "world \<Rightarrow> string \<Rightarrow> error + library list" where
  "get_all_document_libraries W site_id =
     (case token W of
        Inl e \<Rightarrow> Inl e
      | Inr t \<Rightarrow>
          (case site_drives_resp W site_id of
             Inl e \<Rightarrow> Inr []
           | Inr drives \<Rightarrow> Inr drives))"

text \<open>
  \<open>discover_all_sites\<close>: the loop over the pages keeps the identifier of every site whose
  address has \<open>/sites/\<close> or \<open>/teams/\<close> in it; a failed page request leaves the function.
\<close>

definition page_sites :: "site_json list \<Rightarrow> string list" where
  "page_sites value =
     map (\<lambda>site. get_or (sj_id site) [])
       (filter (\<lambda>site. contains ''/sites/'' (get_or (sj_webUrl site) [])
                       \<or> contains ''/teams/'' (get_or (sj_webUrl site) []))
               value)"

fun discover_pages :: "site_pages \<Rightarrow> string list \<Rightarrow> error + string list" where
  "discover_pages (PageFail e) sites = Inl e"
| "discover_pages (LastPage value) sites = Inr (sites @ page_sites value)"
| "discover_pages (NextPage value next) sites = discover_pages next (sites @ page_sites value)"

definition discover_all_sites :: "world \<Rightarrow> error + string list" where
  "discover_all_sites W =
     (case token W of
        Inl e \<Rightarrow> Inl e
      | Inr t \<Rightarrow> discover_pages (sites_search W) [])"

section \<open>The tree walk\<close>

text \<open>
  \<open>uploadData\<close>: the content request and \<open>raise_for_status\<close>, extraction, the metadata, the
  first character of \<open>meta_blob_path\<close> (read for the log line), and the write, which opens
  \<open>directoryName\<close> itself for writing. Opening a directory for writing raises; opening
  anything else leaves a regular file with the new document.
\<close>

definition uploadData ::
  "world \<Rightarrow> string \<Rightarrow> string \<Rightarrow> string \<Rightarrow> string \<Rightarrow> item \<Rightarrow> string \<Rightarrow> site_info \<Rightarrow> string
     \<Rightarrow> string \<Rightarrow> fs \<Rightarrow> outcome" where
  "uploadData W file_blob_path meta_blob_path site_id drive_id item current_path site_info
       library_name directoryName s =
     (case item_content W site_id drive_id (item_id item) of
        Inl e \<Rightarrow> Raised e s
      | Inr file_bytes \<Rightarrow>
          (let extracted_text = extract_text (doc_parsers W) (item_name item) file_bytes;
               metadata = build_metadata (machine W) item current_path extracted_text
                            site_info library_name
           in if meta_blob_path = [] then Raised IndexError s
              else (case s directoryName of
                      Some Dir \<Rightarrow> Raised IsADirectoryError s
                    | _ \<Rightarrow> Done (s(directoryName \<mapsto> File metadata)))))"

text \<open>\<open>os.path.exists\<close> and \<open>os.mkdir\<close> in front of every upload.\<close>

definition ensure_dir :: "string \<Rightarrow> fs \<Rightarrow> fs" where
  "ensure_dir directoryName s =
     (if directoryName \<in> dom s then s else s(directoryName \<mapsto> Dir))"

text \<open>
  \<open>sync_library_children\<close> receives the answer to its listing request; \<open>sync_items\<close> is
  its loop over the items. The token is read before the \<open>try\<close> around the listing
  request; a failed listing is caught and the call returns. Nothing in the loop catches
  an exception: it leaves the loop and the call.
\<close>

fun sync_library_children ::
  "world \<Rightarrow> string \<Rightarrow> string \<Rightarrow> listing \<Rightarrow> string \<Rightarrow> site_info \<Rightarrow> string \<Rightarrow> string \<Rightarrow> fs
     \<Rightarrow> outcome"
and sync_items ::
  "world \<Rightarrow> string \<Rightarrow> string \<Rightarrow> node list \<Rightarrow> string \<Rightarrow> site_info \<Rightarrow> string \<Rightarrow> string \<Rightarrow> fs
     \<Rightarrow> outcome" where
  "sync_library_children W site_id drive_id (ListFail e) relative_path site_info library_name
       blob_base_path s =
     (case token W of Inl e' \<Rightarrow> Raised e' s | Inr t \<Rightarrow> Done s)"
| "sync_library_children W site_id drive_id (Listing items) relative_path site_info
       library_name blob_base_path s =
     (case token W of
        Inl e' \<Rightarrow> Raised e' s
      | Inr t \<Rightarrow>
          sync_items W site_id drive_id items relative_path site_info library_name
            blob_base_path s)"
| "sync_items W site_id drive_id [] relative_path site_info library_name blob_base_path s =
     Done s"
| "sync_items W site_id drive_id (FolderN item children # items) relative_path site_info
       library_name blob_base_path s =
     (let current_path = lstrip_slash (relative_path @ ''/'' @ item_name item)
      in case sync_library_children W site_id drive_id children current_path site_info
                library_name blob_base_path s of
           Raised e s' \<Rightarrow> Raised e s'
         | Done s' \<Rightarrow>
             sync_items W site_id drive_id items relative_path site_info library_name
               blob_base_path s')"
| "sync_items W site_id drive_id (FileN item # items) relative_path site_info library_name
       blob_base_path s =
     (let current_path = lstrip_slash (relative_path @ ''/'' @ item_name item);
          directoryName = ''RAG_DATA_ROOT'';
          s1 = ensure_dir directoryName s;
          file_blob_path = blob_base_path @ ''/'' @ current_path;
          meta_blob_path = file_blob_path @ ''.meta.json''
      in case uploadData W file_blob_path meta_blob_path site_id drive_id item current_path
                site_info library_name directoryName s1 of
           Raised e s' \<Rightarrow> Raised e s'
         | Done s' \<Rightarrow>
             sync_items W site_id drive_id items relative_path site_info library_name
               blob_base_path s')"

section \<open>Sites and libraries\<close>

text \<open>
  The loop of \<open>sync_site\<close> over the libraries: the walk of each library runs inside a
  \<open>try\<close> whose handler goes on to the next library.
\<close>

fun sync_libraries :: "world \<Rightarrow> string \<Rightarrow> site_info \<Rightarrow> string \<Rightarrow> library list \<Rightarrow> fs \<Rightarrow> fs" where
  "sync_libraries W site_id site_info site_name [] s = s"
| "sync_libraries W site_id site_info site_name (library # libraries) s =
     (let library_name = sanitize_folder_name (lib_name library);
          blob_base_path = site_name @ ''/'' @ library_name
      in case sync_library_children W site_id (lib_id library)
                (root_children W site_id (lib_id library)) [] site_info (lib_name library)
                blob_base_path s of
           Raised e s' \<Rightarrow> sync_libraries W site_id site_info site_name libraries s'
         | Done s' \<Rightarrow> sync_libraries W site_id site_info site_name libraries s')"

definition sync_site :: "world \<Rightarrow> string \<Rightarrow> fs \<Rightarrow> outcome" where
  "sync_site W site_id s =
     (case get_site_info W site_id of
        Inl e \<Rightarrow> Raised e s
      | Inr site_info \<Rightarrow>
          (let site_name = sanitize_folder_name (siteName site_info)
           in case get_all_document_libraries W site_id of
                Inl e \<Rightarrow> Raised e s
              | Inr libraries \<Rightarrow>
                  if libraries = [] then Done s
                  else Done (sync_libraries W site_id site_info site_name libraries s)))"

text \<open>
  The loop of \<open>sync_all_sites\<close> over the sites: \<open>sync_site\<close> runs inside a \<open>try\<close> whose
  handler goes on to the next site.
\<close>

fun sync_sites :: "world \<Rightarrow> string list \<Rightarrow> fs \<Rightarrow> fs" where
  "sync_sites W [] s = s"
| "sync_sites W (site_id # sites) s =
     (case sync_site W site_id s of
        Raised e s' \<Rightarrow> sync_sites W sites s'
      | Done s' \<Rightarrow> sync_sites W sites s')"

definition AUTO_DISCOVER_SITES :: bool where
  "AUTO_DISCOVER_SITES = True"

definition SITES_LIST :: "string list" where
  "SITES_LIST = []"

definition sync_all_sites :: "world \<Rightarrow> fs \<Rightarrow> outcome" where
  "sync_all_sites W s =
     (case (if AUTO_DISCOVER_SITES then discover_all_sites W else Inr SITES_LIST) of
        Inl e \<Rightarrow> Raised e s
      | Inr sites \<Rightarrow> if sites = [] then Done s else Done (sync_sites W sites s))"

section \<open>Vocabulary of the properties\<close>

text \<open>
  The files of a listing in the order of a depth-first walk, each with the folders that
  lead to it. A folder whose listing request fails has none.
\<close>

fun routes :: "node list \<Rightarrow> (item list \<times> item) list"
and routes_of :: "listing \<Rightarrow> (item list \<times> item) list" where
  "routes [] = []"
| "routes (FileN f # items) = ([], f) # routes items"
| "routes (FolderN d children # items) =
     map (\<lambda>(ds, f). (d # ds, f)) (routes_of children) @ routes items"
| "routes_of (ListFail e) = []"
| "routes_of (Listing items) = routes items"

text \<open>
  The path the walk has accumulated after it went from \<open>relative_path\<close> through the given
  names, one \<open>lstrip\<close> per step.
\<close>

definition walk_path :: "string \<Rightarrow> string list \<Rightarrow> string" where
  "walk_path relative_path names =
     foldl (\<lambda>p n. lstrip_slash (p @ ''/'' @ n)) relative_path names"

definition route_path :: "string \<Rightarrow> item list \<times> item \<Rightarrow> string" where
  "route_path relative_path r = walk_path relative_path (map item_name (fst r) @ [item_name (snd r)])"

text \<open>The names on the way to a file: its folders from the root down, then its own.\<close>

definition route_names :: "item list \<times> item \<Rightarrow> string list" where
  "route_names r = map item_name (fst r) @ [item_name (snd r)]"

text \<open>
  Uploads one after the other, as the loop body does them for a file: the directory
  check, then \<open>uploadData\<close> with the two paths built from \<open>blob_base_path\<close>; the first
  exception ends the sequence.
\<close>

fun run_uploads ::
  "world \<Rightarrow> string \<Rightarrow> string \<Rightarrow> site_info \<Rightarrow> string \<Rightarrow> string \<Rightarrow> (item \<times> string) list \<Rightarrow> fs
     \<Rightarrow> outcome" where
  "run_uploads W site_id drive_id site_info library_name blob_base_path [] s = Done s"
| "run_uploads W site_id drive_id site_info library_name blob_base_path ((f, p) # rest) s =
     (case uploadData W (blob_base_path @ ''/'' @ p) (blob_base_path @ ''/'' @ p @ ''.meta.json'')
             site_id drive_id f p site_info library_name ''RAG_DATA_ROOT''
             (ensure_dir ''RAG_DATA_ROOT'' s) of
        Raised e s' \<Rightarrow> Raised e s'
      | Done s' \<Rightarrow> run_uploads W site_id drive_id site_info library_name blob_base_path rest s')"

text \<open>The part of a name behind its last dot.\<close>

definition after_last_dot :: "string \<Rightarrow> string" where
  "after_last_dot s = rev (takeWhile (\<lambda>c. c \<noteq> CHR ''.'') (rev s))"

text \<open>
  A grant of a user with the e-mail address \<open>e\<close>: no sharing link, and the address in the
  \<open>user\<close> entry of the current shape, or of the legacy shape when the grant has no
  current one.
\<close>

definition ident_user_email :: "identity_set \<Rightarrow> string option" where
  "ident_user_email g = (case ident_user g of None \<Rightarrow> None | Some u \<Rightarrow> principal_email u)"

definition user_grant :: "permission \<Rightarrow> string \<Rightarrow> bool" where
  "user_grant perm e \<longleftrightarrow>
     link perm = None \<and> e \<noteq> [] \<and>
     (case grantedToV2 perm of
        Some g \<Rightarrow> ident_user_email g = Some e
      | None \<Rightarrow> (case grantedTo perm of Some g \<Rightarrow> ident_user_email g = Some e | None \<Rightarrow> False))"

text \<open>
  What one grant adds to the two lists in one turn of the loop: nothing for a public
  sharing link, the user address and the group identifiers of the current shape, or the
  user address alone of the legacy shape.
\<close>

definition grant_users :: "permission \<Rightarrow> string list" where
  "grant_users perm =
     (if link_is_public perm then []
      else case grantedToV2 perm of
             Some granted \<Rightarrow> user_emails granted
           | None \<Rightarrow> (case grantedTo perm of Some granted \<Rightarrow> user_emails granted | None \<Rightarrow> []))"

definition grant_groups :: "permission \<Rightarrow> string list" where
  "grant_groups perm =
     (if link_is_public perm then []
      else case grantedToV2 perm of Some granted \<Rightarrow> group_ids granted | None \<Rightarrow> [])"

text \<open>
  A cased capital among the code points 0 to 255: A to Z and the Latin-1 capitals. The
  lower-case form of each lies 32 above it.
\<close>

definition is_capital :: "char \<Rightarrow> bool" where
  "is_capital c \<longleftrightarrow>
     (let n = (of_char c :: nat)
      in (65 \<le> n \<and> n \<le> 90) \<or> (192 \<le> n \<and> n \<le> 222 \<and> n \<noteq> 215))"


section \<open>Sample inputs\<close>

definition failing_parsers :: parsers where
  "failing_parsers =
     \<lparr> pdf_pages = (\<lambda>b. Inl ParseError), docx_paragraphs = (\<lambda>b. Inl ParseError),
       pptx_slides = (\<lambda>b. Inl ParseError), xlsx_sheets = (\<lambda>b. Inl ParseError),
       xls_sheets = (\<lambda>b. Inl ParseError) \<rparr>"

definition sample_host :: host where
  "sample_host = \<lparr> now_iso = ''2024-05-01T10:00:00+00:00'', format_bytes = (\<lambda>n. ''2.00 B'') \<rparr>"

definition plain_item :: "string \<Rightarrow> string \<Rightarrow> item" where
  "plain_item name ident =
     \<lparr> item_name = name, item_id = ident, item_mime = None, item_hashes = None,
       item_created_by = None, item_created_at = None, item_modified_by = None,
       item_modified_at = ''2024-04-30T08:00:00Z'', item_size = Some 2, item_web_url = None \<rparr>"

definition sample_site :: site_info where
  "sample_site = \<lparr> siteName = ''Team'', siteId = ''s2'', webUrl = ''https://h/sites/team'' \<rparr>"

text \<open>
  A tenant with two sites. The site request of \<open>s1\<close> fails. Site \<open>s2\<close> has two libraries:
  in \<open>d1\<close> the content request of the first of two files fails, \<open>d2\<close> holds the folder
  \<open>folderX\<close> with \<open>file.txt\<close> in it, and \<open>b.txt\<close> beside the folder. Every file that can be
  fetched has the content \<open>hi\<close>.
\<close>

definition sample_world :: world where
  "sample_world =
     \<lparr> token = Inr ''t'',
       sites_search =
         LastPage [\<lparr> sj_id = Some ''s1'', sj_webUrl = Some ''https://h/sites/old'',
                      sj_displayName = Some ''Old'' \<rparr>,
                   \<lparr> sj_id = Some ''s2'', sj_webUrl = Some ''https://h/sites/team'',
                      sj_displayName = Some ''Team'' \<rparr>],
       site_resource =
         (\<lambda>site_id. if site_id = ''s2''
                     then Inr \<lparr> sj_id = Some ''s2'', sj_webUrl = Some ''https://h/sites/team'',
                                sj_displayName = Some ''Team'' \<rparr>
                     else Inl HTTPError),
       site_drives_resp =
         (\<lambda>site_id. Inr [\<lparr> lib_id = ''d1'', lib_name = ''Broken'', lib_driveType = None,
                             lib_webUrl = None \<rparr>,
                          \<lparr> lib_id = ''d2'', lib_name = ''Documents'', lib_driveType = None,
                             lib_webUrl = None \<rparr>]),
       root_children =
         (\<lambda>site_id drive_id.
            if drive_id = ''d1''
            then Listing [FileN (plain_item ''bad.txt'' ''i0''), FileN (plain_item ''ok.txt'' ''i1'')]
            else Listing [FolderN (plain_item ''folderX'' ''i2'')
                            (Listing [FileN (plain_item ''file.txt'' ''i3'')]),
                          FileN (plain_item ''b.txt'' ''i4'')]),
       item_content =
         (\<lambda>site_id drive_id ident. if ident = ''i0'' then Inl HTTPError else Inr [0x68, 0x69]),
       item_permissions = (\<lambda>site_id drive_id ident. Inr []),
       doc_parsers = failing_parsers,
       machine = sample_host \<rparr>"

definition link_grant :: "string \<Rightarrow> permission" where
  "link_grant sc =
     \<lparr> link = Some \<lparr> scope = Some sc \<rparr>, grantedToV2 = None, grantedTo = None,
       inheritedFrom = None \<rparr>"

definition current_user_grant :: "string \<Rightarrow> permission" where
  "current_user_grant e =
     \<lparr> link = None,
       grantedToV2 = Some \<lparr> ident_user = Some \<lparr> principal_id = None, principal_email = Some e \<rparr>,
                             ident_group = None \<rparr>,
       grantedTo = None, inheritedFrom = None \<rparr>"

definition current_group_grant :: "string \<Rightarrow> string \<Rightarrow> permission" where
  "current_group_grant i e =
     \<lparr> link = None,
       grantedToV2 = Some \<lparr> ident_user = None,
                             ident_group = Some \<lparr> principal_id = Some i, principal_email = Some e \<rparr> \<rparr>,
       grantedTo = None, inheritedFrom = None \<rparr>"

definition legacy_grant :: "principal option \<Rightarrow> principal option \<Rightarrow> permission" where
  "legacy_grant u g =
     \<lparr> link = None, grantedToV2 = None,
       grantedTo = Some \<lparr> ident_user = u, ident_group = g \<rparr>, inheritedFrom = None \<rparr>"

section \<open>Properties of the string functions\<close>

lemma py_split_no_sep: "c \<notin> set s \<Longrightarrow> py_split c s = [s]"
  by (induction s) auto

lemma py_split_not_Nil: "py_split c s \<noteq> []"
  by (induction s) (auto split: list.splits)

lemma py_split_single: "py_split c s = [w] \<Longrightarrow> c \<notin> set s"
  by (induction s arbitrary: w) (auto simp: py_split_not_Nil split: if_splits list.splits)

lemma last_py_split: "last (py_split c s) = rev (takeWhile (\<lambda>x. x \<noteq> c) (rev s))"
proof (induction s)
  case Nil
  then show ?case by simp
next
  case (Cons x s)
  show ?case
  proof (cases "c \<in> set s")
    case True
    then have "rev (takeWhile (\<lambda>x. x \<noteq> c) (rev s @ [x])) = rev (takeWhile (\<lambda>x. x \<noteq> c) (rev s))"
      by (simp add: takeWhile_append1)
    moreover have "last (py_split c (x # s)) = last (py_split c s)"
      using py_split_not_Nil[of c s] py_split_single[of c s] True
      by (cases "py_split c s") (auto split: list.splits)
    ultimately show ?thesis using Cons by simp
  next
    case False
    then have "takeWhile (\<lambda>x. x \<noteq> c) (rev s @ [x]) = rev s @ takeWhile (\<lambda>x. x \<noteq> c) [x]"
      by (intro takeWhile_append2) auto
    with False show ?thesis
      by (simp add: py_split_no_sep)
  qed
qed

lemma lower_char_dot: "lower_char c = CHR ''.'' \<longleftrightarrow> c = CHR ''.''"
proof
  assume h: "lower_char c = CHR ''.''"
  show "c = CHR ''.''"
  proof (rule ccontr)
    assume n: "c \<noteq> CHR ''.''"
    define k where "k = (of_char c :: nat)"
    from h n have r: "(65 \<le> k \<and> k \<le> 90) \<or> (192 \<le> k \<and> k \<le> 222 \<and> k \<noteq> 215)"
      and e: "char_of (k + 32) = CHR ''.''"
      by (auto simp: lower_char_def Let_def k_def split: if_splits)
    from e have "(of_char (char_of (k + 32) :: char) :: nat) = of_char CHR ''.''" by simp
    then have "(k + 32) mod 256 = 46" by simp
    with r show False by auto
  qed
next
  assume "c = CHR ''.''"
  then show "lower_char c = CHR ''.''" by (simp add: lower_char_def)
qed

lemma dot_in_py_lower: "CHR ''.'' \<in> set (py_lower s) \<longleftrightarrow> CHR ''.'' \<in> set s"
  by (auto simp: py_lower_def lower_char_dot image_iff) (metis lower_char_dot)+

lemma suffix_of_no_dot: "CHR ''.'' \<notin> set name \<Longrightarrow> suffix_of name = py_lower name"
  by (simp add: suffix_of_def py_split_no_sep dot_in_py_lower)

lemma suffix_of_after_stem:
  assumes "CHR ''.'' \<notin> set name"
  shows "suffix_of (stem @ ''.'' @ name) = py_lower name"
proof -
  have "CHR ''.'' \<notin> set (py_lower name)" using assms by (simp add: dot_in_py_lower)
  then have "takeWhile (\<lambda>x. x \<noteq> CHR ''.'') (rev (py_lower name) @ CHR ''.'' # rev (py_lower stem))
             = rev (py_lower name)"
    by (subst takeWhile_append2) auto
  moreover have "py_lower (stem @ ''.'' @ name) = py_lower stem @ ''.'' @ py_lower name"
    by (simp add: py_lower_def lower_char_def)
  ultimately show ?thesis
    by (simp add: suffix_of_def last_py_split)
qed

lemma suffix_of_a_txt: "suffix_of ''a.txt'' = ''txt''"
  by (simp add: suffix_of_def py_lower_def lower_char_def)

section \<open>Properties of the extraction\<close>

lemma extract_text_by_suffix:
  "suffix_of name = suffix_of name' \<Longrightarrow> extract_text P name bs = extract_text P name' bs"
  by (simp add: extract_text_def)

lemma utf8_ignore_ascii_prefix:
  "\<forall>b\<in>set xs. b < 128 \<Longrightarrow> utf8_ignore (xs @ ys) = xs @ utf8_ignore ys"
  by (induction xs) auto

lemma utf8_ignore_invalid_start:
  "(128 \<le> c \<and> c < 194) \<or> 245 \<le> c \<Longrightarrow> utf8_ignore (c # ys) = utf8_ignore ys"
  by auto

lemma decode_drops_invalid_start:
  fixes c :: "8 word"
  assumes "\<forall>b\<in>set pre. b < 0x80" and "(0x80 \<le> c \<and> c < 0xC2) \<or> 0xF5 \<le> c"
  shows "decode_utf8_ignore (pre @ c # post) = map unat pre @ decode_utf8_ignore post"
proof -
  have a: "\<forall>b\<in>set (map unat pre). b < 128"
    using assms(1) by (auto simp: word_less_nat_alt)
  have b: "(128 \<le> unat c \<and> unat c < 194) \<or> 245 \<le> unat c"
    using assms(2) by (auto simp: word_less_nat_alt word_le_nat_alt)
  show ?thesis
    unfolding decode_utf8_ignore_def
    using utf8_ignore_ascii_prefix[OF a, of "unat c # map unat post"]
      utf8_ignore_invalid_start[OF b, of "map unat post"]
    by simp
qed

lemma extract_text_plain:
  assumes "suffix_of name \<in> set [''csv'', ''txt'', ''md'', ''json'', ''xml'', ''html'']"
  shows "extract_text P name stream = Some (ustr_strip (decode_utf8_ignore stream))"
  using assms by (auto simp: extract_text_def)

text \<open>
  Claim C3, as the code has it. For a name with one of the plain-text suffixes csv, txt,
  md, json, xml and html, \<open>extract_text\<close> returns the stripped result of decoding the
  bytes as UTF-8 with the error handler \<open>ignore\<close>: an undecodable byte is dropped and no
  character stands in for it. In particular a byte that cannot start a sequence, behind
  ASCII text, disappears and decoding goes on with the bytes after it.
\<close>

theorem plain_text_ignores_undecodable:
  assumes "suffix_of name \<in> set [''csv'', ''txt'', ''md'', ''json'', ''xml'', ''html'']"
  shows "extract_text P name stream = Some (ustr_strip (decode_utf8_ignore stream))
     \<and> (\<forall>pre c post. (\<forall>b\<in>set pre. b < 0x80) \<and> ((0x80 \<le> c \<and> c < 0xC2) \<or> 0xF5 \<le> c)
           \<longrightarrow> decode_utf8_ignore (pre @ c # post) = map unat pre @ decode_utf8_ignore post)"
  using extract_text_plain[OF assms] decode_drops_invalid_start by blast

theorem plain_text_ignores_undecodable_witness:
  "suffix_of ''a.txt'' \<in> set [''csv'', ''txt'', ''md'', ''json'', ''xml'', ''html'']
   \<and> extract_text failing_parsers ''a.txt'' [0x20, 0x61, 0xFF, 0x62, 0x0A] = Some [0x61, 0x62]
   \<and> decode_utf8_ignore ([0x20, 0x61] @ 0xFF # [0x62, 0x0A]) = [0x20, 0x61, 0x62, 0x0A]"
proof -
  have h: "suffix_of ''a.txt'' \<in> set [''csv'', ''txt'', ''md'', ''json'', ''xml'', ''html'']"
    by (simp add: suffix_of_a_txt)
  have d: "decode_utf8_ignore [0x62, 0x0A] = [0x62, 0x0A]"
    by (simp add: decode_utf8_ignore_def)
  have s: "ustr_strip [0x20, 0x61, 0x62, 0x0A] = [0x61, 0x62]"
    by (simp add: ustr_strip_def strip_by_def py_isspace_def)
  note t = plain_text_ignores_undecodable[OF h, of failing_parsers "[0x20, 0x61, 0xFF, 0x62, 0x0A]"]
  have e: "extract_text failing_parsers ''a.txt'' [0x20, 0x61, 0xFF, 0x62, 0x0A]
             = Some (ustr_strip (decode_utf8_ignore [0x20, 0x61, 0xFF, 0x62, 0x0A]))"
    using t by (rule conjunct1)
  have "(\<forall>b\<in>set [0x20, 0x61 :: 8 word]. b < 0x80)
          \<and> ((0x80 \<le> (0xFF :: 8 word) \<and> (0xFF :: 8 word) < 0xC2) \<or> (0xF5 :: 8 word) \<le> 0xFF)"
    by simp
  with t have f: "decode_utf8_ignore ([0x20, 0x61] @ 0xFF # [0x62, 0x0A])
             = map unat [0x20, 0x61 :: 8 word] @ decode_utf8_ignore [0x62, 0x0A]"
    by blast
  from h e f d s show ?thesis by simp
qed

text \<open>
  Claim C3 as the specification states it fails: of the three bytes \<open>a\<close>, FF, \<open>b\<close> in a
  file \<open>a.txt\<close> the result keeps the two letters only; the replacement character U+FFFD
  does not stand between them.
\<close>

theorem plain_text_replacement_counterexample:
  "extract_text failing_parsers ''a.txt'' [0x61, 0xFF, 0x62] = Some [0x61, 0x62]
   \<and> extract_text failing_parsers ''a.txt'' [0x61, 0xFF, 0x62] \<noteq> Some [0x61, 0xFFFD, 0x62]"
  by (simp add: extract_text_def suffix_of_a_txt decode_utf8_ignore_def ustr_strip_def
        strip_by_def py_isspace_def)

section \<open>Properties of the metadata record\<close>

lemma build_metadata_keys_distinct: "distinct (map fst (build_metadata H it p x si lb))"
  by (auto simp: build_metadata_def split: option.splits)

lemma build_metadata_fileExtension:
  "map_of (build_metadata H it p x si lb) ''fileExtension'' =
     Some (PStr (if CHR ''.'' \<in> set (item_name it)
                 then py_lower (last (py_split CHR ''.'' (item_name it))) else []))"
  by (simp add: build_metadata_def)

lemma build_metadata_sharePointPath:
  "map_of (build_metadata H it p x si lb) ''sharePointPath'' = Some (PStr p)"
  by (simp add: build_metadata_def)

text \<open>
  Claim C9. In the dictionary \<open>build_metadata\<close> returns, \<open>hasExtractedText\<close> is true
  exactly when the extracted text is present and not empty; when extraction returned
  nothing or the empty text, the keys \<open>contentText\<close> and \<open>contentTextLength\<close> are absent;
  when the text is present and not empty, \<open>contentText\<close> is that text and
  \<open>contentTextLength\<close> its length.
\<close>

theorem extracted_text_fields:
  "map_of (build_metadata H it p x si lb) ''hasExtractedText''
     = Some (PBool (x \<noteq> None \<and> x \<noteq> Some []))
   \<and> ((x = None \<or> x = Some []) \<longrightarrow>
        map_of (build_metadata H it p x si lb) ''contentText'' = None
        \<and> map_of (build_metadata H it p x si lb) ''contentTextLength'' = None)
   \<and> (\<forall>t. x = Some t \<and> t \<noteq> [] \<longrightarrow>
        map_of (build_metadata H it p x si lb) ''contentText'' = Some (PText t)
        \<and> map_of (build_metadata H it p x si lb) ''contentTextLength''
            = Some (PInt (int (length t))))"
  by (simp add: build_metadata_def split: option.splits)

theorem extracted_text_fields_witness:
  "map_of (build_metadata sample_host (plain_item ''a.txt'' ''i1'') ''a.txt'' (Some [104, 105])
             sample_site ''Documents'') ''hasExtractedText'' = Some (PBool True)
   \<and> map_of (build_metadata sample_host (plain_item ''a.txt'' ''i1'') ''a.txt'' (Some [104, 105])
             sample_site ''Documents'') ''contentTextLength'' = Some (PInt 2)
   \<and> map_of (build_metadata sample_host (plain_item ''a.txt'' ''i1'') ''a.txt'' (Some [])
             sample_site ''Documents'') ''hasExtractedText'' = Some (PBool False)
   \<and> map_of (build_metadata sample_host (plain_item ''a.txt'' ''i1'') ''a.txt'' None
             sample_site ''Documents'') ''contentText'' = None"
  using extracted_text_fields[of sample_host "plain_item ''a.txt'' ''i1''" "''a.txt''"
          "Some [104, 105]" sample_site "''Documents''"]
        extracted_text_fields[of sample_host "plain_item ''a.txt'' ''i1''" "''a.txt''"
          "Some []" sample_site "''Documents''"]
        extracted_text_fields[of sample_host "plain_item ''a.txt'' ''i1''" "''a.txt''"
          None sample_site "''Documents''"]
  by simp

text \<open>
  Claim C10. For a file name without a dot the dispatch key of \<open>extract_text\<close> is the
  whole lower-cased name, so the file is handled exactly like a file that has this name
  as its extension, while \<open>build_metadata\<close> gives the same file the empty
  \<open>fileExtension\<close>. A file named \<open>PDF\<close> goes to the PDF parser.
\<close>

theorem dotless_name_dispatch:
  assumes "CHR ''.'' \<notin> set (item_name it)"
  shows "suffix_of (item_name it) = py_lower (item_name it)
    \<and> extract_text P (item_name it) bs = extract_text P (stem @ ''.'' @ item_name it) bs
    \<and> map_of (build_metadata H it p x si lb) ''fileExtension'' = Some (PStr [])"
proof -
  have a: "suffix_of (item_name it) = py_lower (item_name it)"
    using assms by (rule suffix_of_no_dot)
  have "suffix_of (item_name it) = suffix_of (stem @ ''.'' @ item_name it)"
    using suffix_of_no_dot[OF assms] suffix_of_after_stem[OF assms, of stem] by simp
  then have b: "extract_text P (item_name it) bs = extract_text P (stem @ ''.'' @ item_name it) bs"
    by (rule extract_text_by_suffix)
  have c: "map_of (build_metadata H it p x si lb) ''fileExtension'' = Some (PStr [])"
    using assms by (simp add: build_metadata_fileExtension)
  from a b c show ?thesis by blast
qed

theorem dotless_name_dispatch_witness:
  "CHR ''.'' \<notin> set (item_name (plain_item ''PDF'' ''i9''))
   \<and> suffix_of ''PDF'' = ''pdf''
   \<and> extract_text (failing_parsers\<lparr>pdf_pages := (\<lambda>b. Inr [Some (lit ''page one'')])\<rparr>) ''PDF''
        [0x25] = Some (lit ''page one'')
   \<and> map_of (build_metadata sample_host (plain_item ''PDF'' ''i9'') ''PDF''
               (Some (lit ''page one'')) sample_site ''Documents'') ''fileExtension''
       = Some (PStr [])"
proof -
  have h: "CHR ''.'' \<notin> set (item_name (plain_item ''PDF'' ''i9''))"
    by (simp add: plain_item_def)
  have e: "extract_text (failing_parsers\<lparr>pdf_pages := (\<lambda>b. Inr [Some (lit ''page one'')])\<rparr>)
             ''x.PDF'' [0x25] = Some (lit ''page one'')"
    by (simp add: extract_text_def suffix_of_def py_lower_def lower_char_def
          failing_parsers_def ustr_strip_def strip_by_def lit_def py_isspace_def char_of_eq_iff)
  have n: "item_name (plain_item ''PDF'' ''i9'') = ''PDF''"
    by (simp add: plain_item_def)
  have l: "py_lower ''PDF'' = ''pdf''"
    by (simp add: py_lower_def lower_char_def char_of_eq_iff)
  from dotless_name_dispatch[OF h,
         of "failing_parsers\<lparr>pdf_pages := (\<lambda>b. Inr [Some (lit ''page one'')])\<rparr>" "[0x25]" "''x''"
            sample_host "''PDF''" "Some (lit ''page one'')" sample_site "''Documents''"] h e n l
  show ?thesis by simp
qed

section \<open>Properties of the permission policy\<close>

text \<open>
  Claim C6. The empty grant list gives the policy with no users, no groups, inherited
  permissions and no public access; in general \<open>hasInheritedPermissions\<close> holds exactly
  when the grant list is empty or some grant names an inheritance source, that is, has
  an \<open>inheritedFrom\<close> entry that is not empty.
\<close>

theorem normalize_inherited:
  "normalize [] = \<lparr> allowedUsers = [], allowedGroups = [], hasInheritedPermissions = True,
                    isPublicWithinOrg = False, permissionError = None \<rparr>
   \<and> (hasInheritedPermissions (normalize perms)
        \<longleftrightarrow> perms = [] \<or> (\<exists>p\<in>set perms. marks_inheritance p))"
  by (simp add: normalize_def list_ex_iff split: prod.splits)

theorem normalize_inherited_witness:
  "\<not> hasInheritedPermissions (normalize [link_grant ''organization''])
   \<and> \<not> hasInheritedPermissions (normalize [(link_grant ''organization'')\<lparr>inheritedFrom := Some []\<rparr>])
   \<and> hasInheritedPermissions
       (normalize [(link_grant ''organization'')\<lparr>inheritedFrom := Some [(''driveId'', ''d1'')]\<rparr>])"
  using normalize_inherited[of "[link_grant ''organization'']"]
        normalize_inherited[of "[(link_grant ''organization'')\<lparr>inheritedFrom := Some []\<rparr>]"]
        normalize_inherited[of "[(link_grant ''organization'')\<lparr>inheritedFrom := Some [(''driveId'', ''d1'')]\<rparr>]"]
  by (simp add: marks_inheritance_def link_grant_def)

lemma perm_loop_closed:
  "perm_loop perms (us, gs, pub) =
     (us @ concat (map grant_users perms), gs @ concat (map grant_groups perms),
      pub \<or> list_ex link_is_public perms)"
  by (induction perms arbitrary: us gs pub)
     (auto simp: grant_users_def grant_groups_def split: option.splits)

lemma normalize_allowedUsers:
  "allowedUsers (normalize perms) = remdups (concat (map grant_users perms))"
  by (simp add: normalize_def perm_loop_closed)

lemma normalize_allowedGroups:
  "allowedGroups (normalize perms) = remdups (concat (map grant_groups perms))"
  by (simp add: normalize_def perm_loop_closed)

lemma normalize_isPublic:
  "isPublicWithinOrg (normalize perms) \<longleftrightarrow> (\<exists>p\<in>set perms. link_is_public p)"
  by (simp add: normalize_def perm_loop_closed list_ex_iff)

lemma concat_map_removeAll:
  "f a = [] \<Longrightarrow> concat (map f (removeAll a xs)) = concat (map f xs)"
  by (induction xs) auto

lemma distinct_count_one:
  "distinct xs \<Longrightarrow> x \<in> set xs \<Longrightarrow> length (filter (\<lambda>y. y = x) xs) = 1"
  by (induction xs) (auto simp: filter_empty_conv)

lemma user_grant_users: "user_grant U e \<Longrightarrow> grant_users U = [py_lower e]"
  by (auto simp: user_grant_def grant_users_def link_is_public_def user_emails_def
        ident_user_email_def split: option.splits)

text \<open>
  Claim C5. When the grant list holds a sharing link of scope \<open>anonymous\<close> or
  \<open>organization\<close> and a user grant with an e-mail address, the policy is public within
  the organisation and has the lower-cased address among its users; the link grant adds
  no identifier, since the policy has the same users and groups as without it; both lists
  are free of duplicates, so the address occurs once however many grants name it.
\<close>

theorem link_and_user_grant:
  assumes "L \<in> set perms" and "link_is_public L" and "U \<in> set perms" and "user_grant U e"
  shows "isPublicWithinOrg (normalize perms)
     \<and> py_lower e \<in> set (allowedUsers (normalize perms))
     \<and> allowedUsers (normalize perms) = allowedUsers (normalize (removeAll L perms))
     \<and> allowedGroups (normalize perms) = allowedGroups (normalize (removeAll L perms))
     \<and> distinct (allowedUsers (normalize perms)) \<and> distinct (allowedGroups (normalize perms))
     \<and> length (filter (\<lambda>x. x = py_lower e) (allowedUsers (normalize perms))) = 1"
proof -
  have a: "isPublicWithinOrg (normalize perms)"
    using assms(1,2) by (auto simp: normalize_isPublic)
  have b: "py_lower e \<in> set (allowedUsers (normalize perms))"
    using assms(3) user_grant_users[OF assms(4)] by (force simp: normalize_allowedUsers)
  have "grant_users L = []" "grant_groups L = []"
    using assms(2) by (simp_all add: grant_users_def grant_groups_def)
  then have c: "allowedUsers (normalize perms) = allowedUsers (normalize (removeAll L perms))"
    and d: "allowedGroups (normalize perms) = allowedGroups (normalize (removeAll L perms))"
    by (simp_all add: normalize_allowedUsers normalize_allowedGroups concat_map_removeAll)
  have e: "distinct (allowedUsers (normalize perms))" "distinct (allowedGroups (normalize perms))"
    by (simp_all add: normalize_allowedUsers normalize_allowedGroups)
  have f: "length (filter (\<lambda>x. x = py_lower e) (allowedUsers (normalize perms))) = 1"
    using e(1) b by (rule distinct_count_one)
  from a b c d e f show ?thesis by blast
qed

lemma py_lower_AX: "py_lower ''A@X.org'' = ''a@x.org''"
  by (simp add: py_lower_def lower_char_def char_of_eq_iff)

theorem link_and_user_grant_witness:
  "link_is_public (link_grant ''organization'')
   \<and> user_grant (current_user_grant ''A@X.org'') ''A@X.org''
   \<and> isPublicWithinOrg (normalize [current_user_grant ''A@X.org'', link_grant ''organization'',
                                   current_user_grant ''A@X.org''])
   \<and> allowedUsers (normalize [current_user_grant ''A@X.org'', link_grant ''organization'',
                               current_user_grant ''A@X.org'']) = [''a@x.org'']
   \<and> allowedGroups (normalize [current_user_grant ''A@X.org'', link_grant ''organization'',
                               current_user_grant ''A@X.org'']) = []"
proof -
  let ?perms = "[current_user_grant ''A@X.org'', link_grant ''organization'',
                 current_user_grant ''A@X.org'']"
  have l: "link_is_public (link_grant ''organization'')"
    by (simp add: link_is_public_def link_grant_def)
  have u: "user_grant (current_user_grant ''A@X.org'') ''A@X.org''"
    by (simp add: user_grant_def current_user_grant_def ident_user_email_def)
  have m: "link_grant ''organization'' \<in> set ?perms" "current_user_grant ''A@X.org'' \<in> set ?perms"
    by simp_all
  have r: "removeAll (link_grant ''organization'') ?perms
             = [current_user_grant ''A@X.org'', current_user_grant ''A@X.org'']"
    by (simp add: link_grant_def current_user_grant_def)
  have n: "normalize [current_user_grant ''A@X.org'', current_user_grant ''A@X.org'']
             = \<lparr> allowedUsers = [''a@x.org''], allowedGroups = [],
                 hasInheritedPermissions = False, isPublicWithinOrg = False,
                 permissionError = None \<rparr>"
    by (simp add: normalize_def current_user_grant_def link_is_public_def user_emails_def
          group_ids_def py_lower_AX marks_inheritance_def)
  from link_and_user_grant[OF m(1) l m(2) u] l u r n show ?thesis by simp
qed

text \<open>
  Claim C7, as the code has it. A grant that is not a public sharing link adds, in the
  current shape, the lower-cased e-mail address of its user to the users, and the
  identifier of its group as it is written and the lower-cased e-mail address of its
  group to the groups, each when present and not empty. In the legacy shape, which is
  read only when the grant has no current one, it adds the lower-cased e-mail address of
  its user and nothing to the groups: the policy has the same groups as without the
  grant.
\<close>

theorem principal_grant_extraction:
  assumes "perm \<in> set perms" and "\<not> link_is_public perm"
  shows "(\<forall>g. grantedToV2 perm = Some g \<longrightarrow>
            (\<forall>u e. ident_user g = Some u \<and> principal_email u = Some e \<and> e \<noteq> []
                \<longrightarrow> py_lower e \<in> set (allowedUsers (normalize perms)))
          \<and> (\<forall>gr i. ident_group g = Some gr \<and> principal_id gr = Some i \<and> i \<noteq> []
                \<longrightarrow> i \<in> set (allowedGroups (normalize perms)))
          \<and> (\<forall>gr m. ident_group g = Some gr \<and> principal_email gr = Some m \<and> m \<noteq> []
                \<longrightarrow> py_lower m \<in> set (allowedGroups (normalize perms))))
     \<and> (\<forall>g. grantedToV2 perm = None \<and> grantedTo perm = Some g \<longrightarrow>
            (\<forall>u e. ident_user g = Some u \<and> principal_email u = Some e \<and> e \<noteq> []
                \<longrightarrow> py_lower e \<in> set (allowedUsers (normalize perms)))
          \<and> allowedGroups (normalize perms) = allowedGroups (normalize (removeAll perm perms)))"
proof -
  have us: "set (grant_users perm) \<subseteq> set (allowedUsers (normalize perms))"
    and gs: "set (grant_groups perm) \<subseteq> set (allowedGroups (normalize perms))"
    using assms(1) by (auto simp: normalize_allowedUsers normalize_allowedGroups)
  have 1: "py_lower e \<in> set (allowedUsers (normalize perms))"
    if "grantedToV2 perm = Some g" "ident_user g = Some u" "principal_email u = Some e" "e \<noteq> []"
    for g u e
    using that assms(2) us by (auto simp: grant_users_def user_emails_def)
  have 2: "i \<in> set (allowedGroups (normalize perms))"
    if "grantedToV2 perm = Some g" "ident_group g = Some gr" "principal_id gr = Some i" "i \<noteq> []"
    for g gr i
    using that assms(2) gs by (auto simp: grant_groups_def group_ids_def split: option.splits)
  have 3: "py_lower m \<in> set (allowedGroups (normalize perms))"
    if "grantedToV2 perm = Some g" "ident_group g = Some gr" "principal_email gr = Some m" "m \<noteq> []"
    for g gr m
    using that assms(2) gs by (auto simp: grant_groups_def group_ids_def split: option.splits)
  have 4: "py_lower e \<in> set (allowedUsers (normalize perms))"
    if "grantedToV2 perm = None" "grantedTo perm = Some g" "ident_user g = Some u"
       "principal_email u = Some e" "e \<noteq> []"
    for g u e
    using that assms(2) us by (auto simp: grant_users_def user_emails_def)
  have 5: "allowedGroups (normalize perms) = allowedGroups (normalize (removeAll perm perms))"
    if "grantedToV2 perm = None"
  proof -
    have "grant_groups perm = []" using that by (simp add: grant_groups_def)
    then show ?thesis by (simp add: normalize_allowedGroups concat_map_removeAll)
  qed
  from 1 2 3 4 5 show ?thesis by blast
qed

theorem principal_grant_extraction_witness:
  "\<not> link_is_public (legacy_grant (Some \<lparr> principal_id = None, principal_email = Some ''A@X.org'' \<rparr>)
                           (Some \<lparr> principal_id = Some ''g1'', principal_email = None \<rparr>))
   \<and> ''a@x.org'' \<in> set (allowedUsers (normalize
         [legacy_grant (Some \<lparr> principal_id = None, principal_email = Some ''A@X.org'' \<rparr>)
                       (Some \<lparr> principal_id = Some ''g1'', principal_email = None \<rparr>)]))
   \<and> allowedGroups (normalize
         [legacy_grant (Some \<lparr> principal_id = None, principal_email = Some ''A@X.org'' \<rparr>)
                       (Some \<lparr> principal_id = Some ''g1'', principal_email = None \<rparr>)]) = []"
proof -
  let ?u = "\<lparr> principal_id = None, principal_email = Some ''A@X.org'' \<rparr>"
  let ?g = "\<lparr> principal_id = Some ''g1'', principal_email = None \<rparr>"
  let ?perm = "legacy_grant (Some ?u) (Some ?g)"
  have l: "\<not> link_is_public ?perm"
    by (simp add: link_is_public_def legacy_grant_def)
  have m: "?perm \<in> set [?perm]" by simp
  have s: "grantedToV2 ?perm = None \<and> grantedTo ?perm = Some \<lparr> ident_user = Some ?u, ident_group = Some ?g \<rparr>"
    by (simp add: legacy_grant_def)
  have e: "allowedGroups (normalize []) = []"
    by (simp add: normalize_def)
  note t = principal_grant_extraction[OF m l, THEN conjunct2, rule_format, OF s]
  from t have "py_lower ''A@X.org'' \<in> set (allowedUsers (normalize [?perm]))"
    by simp
  moreover from t have "allowedGroups (normalize [?perm]) = allowedGroups (normalize (removeAll ?perm [?perm]))"
    by (rule conjunct2)
  ultimately show ?thesis using l e by (simp add: py_lower_AX)
qed

text \<open>
  Claim C7 as the specification states it fails: a legacy-shape grant that names a group
  leaves the groups empty, and the identifier of a group in the current shape is taken
  as it is written, not lower-cased.
\<close>

theorem legacy_group_counterexample:
  "allowedGroups (normalize [legacy_grant None
        (Some \<lparr> principal_id = Some ''g1'', principal_email = Some ''Team@X.org'' \<rparr>)]) = []
   \<and> allowedGroups (normalize [current_group_grant ''G1'' ''A@X.org'']) = [''G1'', ''a@x.org'']"
  by (simp add: normalize_def legacy_grant_def current_group_grant_def link_is_public_def
        user_emails_def group_ids_def py_lower_AX)

section \<open>Properties of the walk\<close>

lemma run_uploads_append:
  "run_uploads W site drive si lib base (xs @ ys) s =
     (case run_uploads W site drive si lib base xs s of
        Raised e s' \<Rightarrow> Raised e s'
      | Done s' \<Rightarrow> run_uploads W site drive si lib base ys s')"
proof (induction xs arbitrary: s)
  case Nil
  then show ?case by simp
next
  case (Cons a xs)
  obtain f p where a: "a = (f, p)" by (cases a)
  show ?case
    by (cases "uploadData W (base @ ''/'' @ p) (base @ ''/'' @ p @ ''.meta.json'') site drive f p
                 si lib ''RAG_DATA_ROOT'' (ensure_dir ''RAG_DATA_ROOT'' s)")
       (simp_all add: a Cons.IH)
qed

lemma sync_items_append:
  "sync_items W site drive (xs @ ys) rel si lib base s =
     (case sync_items W site drive xs rel si lib base s of
        Raised e s' \<Rightarrow> Raised e s'
      | Done s' \<Rightarrow> sync_items W site drive ys rel si lib base s')"
proof (induction xs arbitrary: s)
  case Nil
  then show ?case by simp
next
  case (Cons a xs)
  show ?case
  proof (cases a)
    case (FileN f)
    then show ?thesis
      by (simp add: Cons.IH Let_def split: outcome.splits)
  next
    case (FolderN d children)
    then show ?thesis
      by (simp add: Cons.IH Let_def split: outcome.splits)
  qed
qed

lemma route_path_Cons:
  "route_path rel (d # ds, f) = route_path (lstrip_slash (rel @ ''/'' @ item_name d)) (ds, f)"
  by (simp add: route_path_def walk_path_def)

lemma route_path_file: "route_path rel ([], f) = lstrip_slash (rel @ ''/'' @ item_name f)"
  by (simp add: route_path_def walk_path_def)

lemma walk_is_run_uploads:
  assumes "token W = Inr t"
  shows "(\<forall>rel s. sync_items W site drive items rel si lib base s =
            run_uploads W site drive si lib base
              (map (\<lambda>r. (snd r, route_path rel r)) (routes items)) s)"
    and "(\<forall>rel s. sync_library_children W site drive children rel si lib base s =
            run_uploads W site drive si lib base
              (map (\<lambda>r. (snd r, route_path rel r)) (routes_of children)) s)"
proof (induction items and children rule: routes_routes_of.induct)
  case 1
  then show ?case by simp
next
  case (2 f items)
  then show ?case
    by (auto simp: Let_def route_path_file split: outcome.splits)
next
  case (3 d children items)
  have m: "map ((\<lambda>r. (snd r, route_path rel r)) \<circ> (\<lambda>(ds, f). (d # ds, f))) rs
           = map (\<lambda>r. (snd r, route_path (lstrip_slash (rel @ ''/'' @ item_name d)) r)) rs"
    for rel rs
    by (induction rs) (auto simp: route_path_Cons)
  from 3 show ?case
    by (auto simp: Let_def run_uploads_append m split: outcome.splits)
next
  case (4 e)
  then show ?case using assms by simp
next
  case (5 items)
  then show ?case using assms by simp
qed

lemma lstrip_slash_idem_append:
  "lstrip_slash (lstrip_slash x @ CHR ''/'' # y) = lstrip_slash (x @ CHR ''/'' # y)"
proof (cases "\<forall>c\<in>set x. c = CHR ''/''")
  case True
  then have a: "dropWhile (\<lambda>c. c = CHR ''/'') x = []" by simp
  from True have b: "dropWhile (\<lambda>c. c = CHR ''/'') (x @ CHR ''/'' # y)
      = dropWhile (\<lambda>c. c = CHR ''/'') (CHR ''/'' # y)"
    by (intro dropWhile_append2) auto
  show ?thesis unfolding lstrip_slash_def a b by simp
next
  case False
  then obtain c where c: "c \<in> set x" "c \<noteq> CHR ''/''" by auto
  then have 1: "dropWhile (\<lambda>c. c = CHR ''/'') (x @ CHR ''/'' # y)
      = dropWhile (\<lambda>c. c = CHR ''/'') x @ CHR ''/'' # y"
    by (intro dropWhile_append1) auto
  from c have "dropWhile (\<lambda>c. c = CHR ''/'') x \<noteq> []" by auto
  then have "hd (dropWhile (\<lambda>c. c = CHR ''/'') x) \<noteq> CHR ''/''"
    by (rule hd_dropWhile[where P="\<lambda>c. c = CHR ''/''"])
  with \<open>dropWhile (\<lambda>c. c = CHR ''/'') x \<noteq> []\<close>
  have "dropWhile (\<lambda>c. c = CHR ''/'') (dropWhile (\<lambda>c. c = CHR ''/'') x @ CHR ''/'' # y)
      = dropWhile (\<lambda>c. c = CHR ''/'') x @ CHR ''/'' # y"
    by (cases "dropWhile (\<lambda>c. c = CHR ''/'') x") auto
  with 1 show ?thesis by (simp add: lstrip_slash_def)
qed

lemma py_join_snoc:
  "xs \<noteq> [] \<Longrightarrow> py_join sep (xs @ [x]) = py_join sep xs @ sep @ x"
  by (induction sep xs rule: py_join.induct) auto

lemma walk_path_root: "walk_path [] names = lstrip_slash (py_join ''/'' names)"
proof (induction names rule: rev_induct)
  case Nil
  then show ?case by (simp add: walk_path_def lstrip_slash_def)
next
  case (snoc n names)
  show ?case
  proof (cases "names = []")
    case True
    then show ?thesis by (simp add: walk_path_def lstrip_slash_def)
  next
    case False
    have "walk_path [] (names @ [n]) = lstrip_slash (walk_path [] names @ ''/'' @ n)"
      by (simp add: walk_path_def)
    also have "\<dots> = lstrip_slash (py_join ''/'' names @ CHR ''/'' # n)"
      by (simp add: snoc.IH lstrip_slash_idem_append)
    finally show ?thesis using False by (simp add: py_join_snoc)
  qed
qed

lemma lstrip_slash_no_lead: "lstrip_slash s = [] \<or> hd (lstrip_slash s) \<noteq> CHR ''/''"
  unfolding lstrip_slash_def
  using hd_dropWhile[where P="\<lambda>c. c = CHR ''/''" and xs=s] by blast

lemma py_join_hd:
  "names \<noteq> [] \<Longrightarrow> hd names \<noteq> [] \<Longrightarrow> hd (py_join sep names) = hd (hd names) \<and> py_join sep names \<noteq> []"
  by (induction sep names rule: py_join.induct) auto

lemma lstrip_slash_join:
  assumes "names \<noteq> []" and "hd names \<noteq> []" and "hd (hd names) \<noteq> CHR ''/''"
  shows "lstrip_slash (py_join ''/'' names) = py_join ''/'' names"
  using py_join_hd[OF assms(1,2), of "''/''"] assms(3)
  by (cases "py_join ''/'' names") (auto simp: lstrip_slash_def)

lemma py_lower_after_last_dot:
  "py_lower (last (py_split CHR ''.'' s)) = py_lower (after_last_dot s)"
  by (simp add: last_py_split after_last_dot_def)

section \<open>Properties of the uploads and of the loops\<close>

lemma uploadData_content_failure:
  "item_content W site drive (item_id f) = Inl e \<Longrightarrow>
     uploadData W fb mb site drive f p si lib dir s = Raised e s"
  by (simp add: uploadData_def)

lemma uploadData_written:
  assumes "item_content W site drive (item_id f) = Inr bs" and "mb \<noteq> []" and "s dir \<noteq> Some Dir"
  shows "uploadData W fb mb site drive f p si lib dir s =
           Done (s(dir \<mapsto> File (build_metadata (machine W) f p
                                     (extract_text (doc_parsers W) (item_name f) bs) si lib)))"
  using assms by (auto simp: uploadData_def Let_def split: option.splits fsnode.splits)

lemma uploadData_is_a_directory:
  assumes "item_content W site drive (item_id f) = Inr bs" and "mb \<noteq> []" and "s dir = Some Dir"
  shows "uploadData W fb mb site drive f p si lib dir s = Raised IsADirectoryError s"
  using assms by (auto simp: uploadData_def Let_def)

lemma sync_items_content_failure:
  assumes "sync_items W site drive before rel si lib base s = Done s1"
      and "item_content W site drive (item_id f) = Inl e"
  shows "sync_items W site drive (before @ FileN f # after) rel si lib base s
           = Raised e (ensure_dir ''RAG_DATA_ROOT'' s1)"
  using assms by (simp add: sync_items_append Let_def uploadData_content_failure)

lemma sync_libraries_append:
  "sync_libraries W site si sn (xs @ ys) s =
     sync_libraries W site si sn ys (sync_libraries W site si sn xs s)"
  by (induction xs arbitrary: s) (auto simp: Let_def split: outcome.splits)

lemma sync_libraries_Cons:
  "sync_libraries W site si sn (l # ls) s =
     sync_libraries W site si sn ls
       (state_of (sync_library_children W site (lib_id l) (root_children W site (lib_id l)) []
                    si (lib_name l) (sn @ ''/'' @ sanitize_folder_name (lib_name l)) s))"
  by (auto simp: Let_def split: outcome.splits)

lemma sync_sites_append:
  "sync_sites W (xs @ ys) s = sync_sites W ys (sync_sites W xs s)"
  by (induction xs arbitrary: s) (auto split: outcome.splits)

lemma sync_sites_Cons:
  "sync_sites W (x # xs) s = sync_sites W xs (state_of (sync_site W x s))"
  by (auto split: outcome.splits)

lemma uploadData_other_paths:
  "q \<noteq> dir \<Longrightarrow> state_of (uploadData W fb mb site drive f p si lib dir s) q = s q"
  by (auto simp: uploadData_def Let_def split: sum.splits option.splits fsnode.splits)

lemma ensure_dir_other_paths: "q \<noteq> dir \<Longrightarrow> ensure_dir dir s q = s q"
  by (simp add: ensure_dir_def)

lemma run_uploads_other_paths:
  "q \<noteq> ''RAG_DATA_ROOT'' \<Longrightarrow>
     state_of (run_uploads W site drive si lib base us s) q = s q"
proof (induction us arbitrary: s)
  case Nil
  then show ?case by simp
next
  case (Cons a us)
  obtain f p where a: "a = (f, p)" by (cases a)
  let ?u = "uploadData W (base @ ''/'' @ p) (base @ ''/'' @ p @ ''.meta.json'') site drive f p
              si lib ''RAG_DATA_ROOT'' (ensure_dir ''RAG_DATA_ROOT'' s)"
  have u: "state_of ?u q = s q"
    using Cons.prems by (simp add: uploadData_other_paths ensure_dir_other_paths)
  show ?case
  proof (cases ?u)
    case (Done s')
    with u Cons show ?thesis by (simp add: a)
  next
    case (Raised e s')
    with u show ?thesis by (simp add: a)
  qed
qed

lemma walk_other_paths:
  assumes "q \<noteq> ''RAG_DATA_ROOT''"
  shows "state_of (sync_library_children W site drive children rel si lib base s) q = s q"
proof (cases "token W")
  case (Inl e)
  then show ?thesis by (cases children) simp_all
next
  case (Inr t)
  from walk_is_run_uploads(2)[OF Inr, of site drive children si lib base]
  show ?thesis using assms by (simp add: run_uploads_other_paths)
qed

lemma route_path_root: "route_path [] r = lstrip_slash (py_join ''/'' (route_names r))"
  by (simp add: route_path_def route_names_def walk_path_root)

lemma lower_char_capital:
  "is_capital c \<Longrightarrow> (of_char (lower_char c) :: nat) = of_char c + 32"
  by (auto simp: is_capital_def lower_char_def Let_def)

lemma lower_char_other: "\<not> is_capital c \<Longrightarrow> lower_char c = c"
  by (auto simp: is_capital_def lower_char_def Let_def)

lemma lower_char_not_capital: "\<not> is_capital (lower_char c)"
proof (cases "is_capital c")
  case True
  from lower_char_capital[OF True] True show ?thesis
    by (auto simp: is_capital_def Let_def)
next
  case False
  then show ?thesis by (simp add: lower_char_other)
qed

lemma py_lower_no_capital: "\<forall>c\<in>set (py_lower s). \<not> is_capital c"
  by (auto simp: py_lower_def lower_char_not_capital)

lemma py_lower_letters:
  "list_all2 (\<lambda>a b. if is_capital a then (of_char b :: nat) = of_char a + 32 else b = a)
     s (py_lower s)"
  by (induction s) (auto simp: py_lower_def lower_char_capital lower_char_other)




section \<open>The sample tenant\<close>

lemma sample_world_fields:
  "token sample_world = Inr ''t''"
  "doc_parsers sample_world = failing_parsers"
  "machine sample_world = sample_host"
  "item_content sample_world a b i = (if i = ''i0'' then Inl HTTPError else Inr [0x68, 0x69])"
  "root_children sample_world a ''d1'' =
     Listing [FileN (plain_item ''bad.txt'' ''i0''), FileN (plain_item ''ok.txt'' ''i1'')]"
  "root_children sample_world a ''d2'' =
     Listing [FolderN (plain_item ''folderX'' ''i2'') (Listing [FileN (plain_item ''file.txt'' ''i3'')]),
              FileN (plain_item ''b.txt'' ''i4'')]"
  "site_resource sample_world ''s1'' = Inl HTTPError"
  "site_resource sample_world ''s2'' =
     Inr \<lparr> sj_id = Some ''s2'', sj_webUrl = Some ''https://h/sites/team'',
           sj_displayName = Some ''Team'' \<rparr>"
  "site_drives_resp sample_world a =
     Inr [\<lparr> lib_id = ''d1'', lib_name = ''Broken'', lib_driveType = None, lib_webUrl = None \<rparr>,
          \<lparr> lib_id = ''d2'', lib_name = ''Documents'', lib_driveType = None, lib_webUrl = None \<rparr>]"
  by (simp_all add: sample_world_def)

lemma plain_item_fields: "item_name (plain_item n i) = n" "item_id (plain_item n i) = i"
  by (simp_all add: plain_item_def)

lemma extract_text_txt_hi:
  "suffix_of name = ''txt'' \<Longrightarrow> extract_text P name [0x68, 0x69] = Some [104, 105]"
  by (simp add: extract_text_def decode_utf8_ignore_def ustr_strip_def strip_by_def py_isspace_def)

lemma sample_suffixes:
  "suffix_of ''ok.txt'' = ''txt''" "suffix_of ''b.txt'' = ''txt''" "suffix_of ''file.txt'' = ''txt''"
  by (simp_all add: suffix_of_def py_lower_def lower_char_def)

lemma sample_discover: "discover_all_sites sample_world = Inr [''s1'', ''s2'']"
  by (simp add: discover_all_sites_def sample_world_def page_sites_def get_or_def)

lemma sample_site_info:
  "get_site_info sample_world ''s1'' = Inl HTTPError"
  "get_site_info sample_world ''s2'' = Inr sample_site"
  by (simp_all add: get_site_info_def sample_world_fields get_or_def sample_site_def)

lemma sample_libraries:
  "get_all_document_libraries sample_world ''s2'' =
     Inr [\<lparr> lib_id = ''d1'', lib_name = ''Broken'', lib_driveType = None, lib_webUrl = None \<rparr>,
          \<lparr> lib_id = ''d2'', lib_name = ''Documents'', lib_driveType = None, lib_webUrl = None \<rparr>]"
  by (simp add: get_all_document_libraries_def sample_world_fields)

lemma sample_sanitize:
  "sanitize_folder_name ''Team'' = ''Team''"
  "sanitize_folder_name ''Broken'' = ''Broken''"
  "sanitize_folder_name ''Documents'' = ''Documents''"
  by (simp_all add: sanitize_folder_name_def invalid_chars_def str_replace_def str_strip_def
        strip_by_def py_isspace_def)

lemma sample_lstrip:
  "lstrip_slash ''/bad.txt'' = ''bad.txt''" "lstrip_slash ''/ok.txt'' = ''ok.txt''"
  "lstrip_slash ''/b.txt'' = ''b.txt''" "lstrip_slash ''/folderX'' = ''folderX''"
  "lstrip_slash ''folderX/file.txt'' = ''folderX/file.txt''"
  by (simp_all add: lstrip_slash_def)

lemma upload_ok_sample:
  assumes "i \<noteq> ''i0''" and "suffix_of n = ''txt''" and "s ''RAG_DATA_ROOT'' \<noteq> Some Dir" and "mb \<noteq> []"
  shows "uploadData sample_world fb mb a b (plain_item n i) p si lib ''RAG_DATA_ROOT'' s
     = Done (s(''RAG_DATA_ROOT'' \<mapsto> File (build_metadata sample_host (plain_item n i) p (Some [104, 105]) si lib)))"
proof -
  have "item_content sample_world a b (item_id (plain_item n i)) = Inr [0x68, 0x69]"
    using assms(1) by (simp add: sample_world_fields plain_item_fields)
  from uploadData_written[where W=sample_world and f="plain_item n i" and s=s
         and dir="''RAG_DATA_ROOT''", OF this assms(4) assms(3)] assms(2)
  show ?thesis by (simp add: sample_world_fields plain_item_fields extract_text_txt_hi)
qed

lemma upload_dir_sample:
  assumes "i \<noteq> ''i0''" and "s ''RAG_DATA_ROOT'' = Some Dir" and "mb \<noteq> []"
  shows "uploadData sample_world fb mb a b (plain_item n i) p si lib ''RAG_DATA_ROOT'' s
     = Raised IsADirectoryError s"
proof -
  have "item_content sample_world a b (item_id (plain_item n i)) = Inr [0x68, 0x69]"
    using assms(1) by (simp add: sample_world_fields plain_item_fields)
  from uploadData_is_a_directory[where W=sample_world and f="plain_item n i" and s=s
         and dir="''RAG_DATA_ROOT''", OF this assms(3) assms(2)] show ?thesis .
qed

lemma upload_bad_sample:
  "uploadData sample_world fb mb a b (plain_item n ''i0'') p si lib dir s = Raised HTTPError s"
  by (rule uploadData_content_failure) (simp add: sample_world_fields plain_item_fields)

lemma walk_d1_file:
  "sync_library_children sample_world ''s2'' ''d1'' (root_children sample_world ''s2'' ''d1'') []
     si lib base [''RAG_DATA_ROOT'' \<mapsto> File []]
   = Raised HTTPError [''RAG_DATA_ROOT'' \<mapsto> File []]"
  by (simp add: sample_world_fields plain_item_fields Let_def ensure_dir_def upload_bad_sample)

lemma walk_d2_file:
  "sync_library_children sample_world ''s2'' ''d2'' (root_children sample_world ''s2'' ''d2'') []
     si lib base [''RAG_DATA_ROOT'' \<mapsto> File []]
   = Done [''RAG_DATA_ROOT'' \<mapsto> File (build_metadata sample_host (plain_item ''b.txt'' ''i4'')
                                            ''b.txt'' (Some [104, 105]) si lib)]"
  by (simp add: sample_world_fields plain_item_fields Let_def ensure_dir_def upload_ok_sample
        sample_suffixes sample_lstrip)

lemma walk_d2_fresh:
  "sync_library_children sample_world ''s2'' ''d2'' (root_children sample_world ''s2'' ''d2'') []
     si lib base Map.empty
   = Raised IsADirectoryError [''RAG_DATA_ROOT'' \<mapsto> Dir]"
  by (simp add: sample_world_fields plain_item_fields Let_def ensure_dir_def upload_dir_sample
        sample_suffixes sample_lstrip)

section \<open>Properties of the run\<close>




text \<open>
  Claim C2 fails on the code. The library holds the two files \<open>folderX/file.txt\<close> and
  \<open>b.txt\<close>, both with content. Where \<open>RAG_DATA_ROOT\<close> does not exist, the walk makes the
  directory, then opens the directory itself for writing: it ends with that exception and
  no record is stored. Where \<open>RAG_DATA_ROOT\<close> is a regular file, both records go into this
  one file and the second replaces the first. No path built from the document path is
  written in either case.
\<close>

theorem one_fixed_output_path:
  "sync_library_children sample_world ''s2'' ''d2''
     (Listing [FolderN (plain_item ''folderX'' ''i2'') (Listing [FileN (plain_item ''file.txt'' ''i3'')]),
               FileN (plain_item ''b.txt'' ''i4'')]) []
     sample_site ''Documents'' ''Team/Documents'' Map.empty
   = Raised IsADirectoryError [''RAG_DATA_ROOT'' \<mapsto> Dir]
   \<and> sync_library_children sample_world ''s2'' ''d2''
     (Listing [FolderN (plain_item ''folderX'' ''i2'') (Listing [FileN (plain_item ''file.txt'' ''i3'')]),
               FileN (plain_item ''b.txt'' ''i4'')]) []
     sample_site ''Documents'' ''Team/Documents'' [''RAG_DATA_ROOT'' \<mapsto> File []]
   = Done [''RAG_DATA_ROOT'' \<mapsto> File (build_metadata sample_host (plain_item ''b.txt'' ''i4'')
                                            ''b.txt'' (Some [104, 105]) sample_site ''Documents'')]"
  using walk_d2_fresh[of sample_site "''Documents''" "''Team/Documents''"]
        walk_d2_file[of sample_site "''Documents''" "''Team/Documents''"]
  by (simp add: sample_world_fields)

text \<open>
  Claim C4. The loop over the sites goes on behind every site, whether \<open>sync_site\<close>
  returned or raised: the sites after it are synced from the file system it left; the
  same holds for the loop over the libraries of a site and the walk of each library. A
  site whose site request or library enumeration raises changes nothing and the
  remaining sites are synced as if it were not in the list; once the sites are
  discovered, \<open>sync_all_sites\<close> returns normally.
\<close>

theorem failure_isolation:
  "sync_sites W (before @ site_id # after) s
     = sync_sites W after (state_of (sync_site W site_id (sync_sites W before s)))
   \<and> sync_libraries W sid si sn (lbefore @ l # lafter) s
     = sync_libraries W sid si sn lafter
         (state_of (sync_library_children W sid (lib_id l) (root_children W sid (lib_id l)) []
                      si (lib_name l) (sn @ ''/'' @ sanitize_folder_name (lib_name l))
                      (sync_libraries W sid si sn lbefore s)))
   \<and> (\<forall>e. get_site_info W site_id = Inl e \<or> get_all_document_libraries W site_id = Inl e
          \<longrightarrow> sync_sites W (site_id # after) s = sync_sites W after s)
   \<and> (\<forall>sites. discover_all_sites W = Inr sites
          \<longrightarrow> sync_all_sites W s = Done (sync_sites W sites s))"
proof -
  have a: "sync_sites W (before @ site_id # after) s
     = sync_sites W after (state_of (sync_site W site_id (sync_sites W before s)))"
    by (simp only: sync_sites_append sync_sites_Cons)
  have b: "sync_libraries W sid si sn (lbefore @ l # lafter) s
     = sync_libraries W sid si sn lafter
         (state_of (sync_library_children W sid (lib_id l) (root_children W sid (lib_id l)) []
                      si (lib_name l) (sn @ ''/'' @ sanitize_folder_name (lib_name l))
                      (sync_libraries W sid si sn lbefore s)))"
    by (simp only: sync_libraries_append sync_libraries_Cons)
  have c: "sync_sites W (site_id # after) s = sync_sites W after s"
    if "get_site_info W site_id = Inl e \<or> get_all_document_libraries W site_id = Inl e" for e
    using that by (auto simp: sync_site_def Let_def split: sum.splits)
  have d: "sync_all_sites W s = Done (sync_sites W sites s)"
    if "discover_all_sites W = Inr sites" for sites
    using that by (cases sites) (simp_all add: sync_all_sites_def AUTO_DISCOVER_SITES_def)
  from a b c d show ?thesis by blast
qed

theorem failure_isolation_witness:
  "get_site_info sample_world ''s1'' = Inl HTTPError
   \<and> discover_all_sites sample_world = Inr [''s1'', ''s2'']
   \<and> is_raised (sync_library_children sample_world ''s2'' ''d1''
                   (root_children sample_world ''s2'' ''d1'') [] sample_site ''Broken''
                   ''Team/Broken'' [''RAG_DATA_ROOT'' \<mapsto> File []])
   \<and> sync_all_sites sample_world [''RAG_DATA_ROOT'' \<mapsto> File []]
       = Done [''RAG_DATA_ROOT'' \<mapsto> File (build_metadata sample_host (plain_item ''b.txt'' ''i4'')
                                               ''b.txt'' (Some [104, 105]) sample_site ''Documents'')]"
proof -
  let ?s = "[''RAG_DATA_ROOT'' \<mapsto> File []]"
  note t = failure_isolation[of sample_world "[]" "''s1''" "[''s2'']" ?s]
  have 1: "sync_sites sample_world (''s1'' # [''s2'']) ?s = sync_sites sample_world [''s2''] ?s"
    using t sample_site_info(1) by blast
  have 2: "sync_all_sites sample_world ?s = Done (sync_sites sample_world [''s1'', ''s2''] ?s)"
    using t sample_discover by blast
  have 3: "sync_site sample_world ''s2'' ?s
     = Done [''RAG_DATA_ROOT'' \<mapsto> File (build_metadata sample_host (plain_item ''b.txt'' ''i4'')
                                               ''b.txt'' (Some [104, 105]) sample_site ''Documents'')]"
    by (simp add: sync_site_def sample_site_info sample_libraries Let_def walk_d1_file
          walk_d2_file sample_sanitize)
  have 4: "is_raised (sync_library_children sample_world ''s2'' ''d1''
                   (root_children sample_world ''s2'' ''d1'') [] sample_site ''Broken''
                   ''Team/Broken'' ?s)"
    by (simp add: walk_d1_file)
  from 1 2 3 4 sample_site_info(1) sample_discover show ?thesis by simp
qed

text \<open>
  Claim C8. With a token at hand, the walk of a library from its root is the sequence of
  uploads of its files in depth-first order, each with the path that joins the names of
  its folders and its own name with slashes, stripped of leading slashes. This path never
  begins with a slash and is the plain join when the first name is not empty and does not
  begin with a slash; it is the \<open>current_path\<close> the record is built with, so the record
  has it as \<open>sharePointPath\<close>. For a name with a dot \<open>fileExtension\<close> is the lower-cased
  part of the name behind its last dot: it holds no capital letter, and letter by letter
  it has the character of the name, or the character 32 above it where the name has a
  capital. Walking \<open>folderX/Report.TXT\<close> gives the path \<open>folderX/Report.TXT\<close> and the
  extension \<open>txt\<close>.
\<close>

theorem walk_record_paths:
  assumes "token W = Inr t"
  shows "sync_library_children W site drive (Listing items) [] si lib base s
           = run_uploads W site drive si lib base
               (map (\<lambda>r. (snd r, lstrip_slash (py_join ''/'' (route_names r)))) (routes items)) s
     \<and> (\<forall>r\<in>set (routes items). \<forall>p. p = lstrip_slash (py_join ''/'' (route_names r)) \<longrightarrow>
           (p = [] \<or> hd p \<noteq> CHR ''/'')
         \<and> (hd (route_names r) \<noteq> [] \<and> hd (hd (route_names r)) \<noteq> CHR ''/''
              \<longrightarrow> p = py_join ''/'' (route_names r))
         \<and> (\<forall>bs s2. item_content W site drive (item_id (snd r)) = Inr bs
                \<and> s2 ''RAG_DATA_ROOT'' \<noteq> Some Dir
              \<longrightarrow> uploadData W (base @ ''/'' @ p) (base @ ''/'' @ p @ ''.meta.json'') site drive
                    (snd r) p si lib ''RAG_DATA_ROOT'' s2
                  = Done (s2(''RAG_DATA_ROOT'' \<mapsto> File (build_metadata (machine W) (snd r) p
                        (extract_text (doc_parsers W) (item_name (snd r)) bs) si lib))))
         \<and> map_of (build_metadata H (snd r) p x si lib) ''sharePointPath'' = Some (PStr p)
         \<and> (CHR ''.'' \<in> set (item_name (snd r)) \<longrightarrow>
              map_of (build_metadata H (snd r) p x si lib) ''fileExtension''
                = Some (PStr (py_lower (after_last_dot (item_name (snd r)))))
              \<and> (\<forall>c\<in>set (py_lower (after_last_dot (item_name (snd r)))). \<not> is_capital c)
              \<and> list_all2 (\<lambda>a b. if is_capital a then (of_char b :: nat) = of_char a + 32
                                  else b = a)
                   (after_last_dot (item_name (snd r)))
                   (py_lower (after_last_dot (item_name (snd r))))))"
proof -
  have a: "sync_library_children W site drive (Listing items) [] si lib base s
           = run_uploads W site drive si lib base
               (map (\<lambda>r. (snd r, lstrip_slash (py_join ''/'' (route_names r)))) (routes items)) s"
    using walk_is_run_uploads(2)[OF assms, of site drive "Listing items" si lib base]
    by (simp add: route_path_root)
  have b: "lstrip_slash q = [] \<or> hd (lstrip_slash q) \<noteq> CHR ''/''" for q
    by (rule lstrip_slash_no_lead)
  have c: "lstrip_slash (py_join ''/'' (route_names r)) = py_join ''/'' (route_names r)"
    if "hd (route_names r) \<noteq> []" "hd (hd (route_names r)) \<noteq> CHR ''/''" for r
  proof -
    have "route_names r \<noteq> []" by (simp add: route_names_def)
    from lstrip_slash_join[OF this that] show ?thesis .
  qed
  have d: "uploadData W (base @ ''/'' @ p) (base @ ''/'' @ p @ ''.meta.json'') site drive f p si lib
             ''RAG_DATA_ROOT'' s2
           = Done (s2(''RAG_DATA_ROOT'' \<mapsto> File (build_metadata (machine W) f p
                        (extract_text (doc_parsers W) (item_name f) bs) si lib)))"
    if "item_content W site drive (item_id f) = Inr bs" "s2 ''RAG_DATA_ROOT'' \<noteq> Some Dir"
    for f p bs s2
    using uploadData_written[where W=W and f=f and s=s2 and dir="''RAG_DATA_ROOT''"
            and mb="base @ ''/'' @ p @ ''.meta.json''", OF that(1) _ that(2)]
    by simp
  have e: "map_of (build_metadata H f p x si lib) ''sharePointPath'' = Some (PStr p)" for f p
    by (rule build_metadata_sharePointPath)
  have f: "map_of (build_metadata H g p x si lib) ''fileExtension''
                = Some (PStr (py_lower (after_last_dot (item_name g))))"
    if "CHR ''.'' \<in> set (item_name g)" for g p
    using that by (simp add: build_metadata_fileExtension py_lower_after_last_dot)
  show ?thesis
  proof (rule conjI[OF a], intro ballI allI impI)
    fix r p
    assume p: "p = lstrip_slash (py_join ''/'' (route_names r))"
    have 1: "p = [] \<or> hd p \<noteq> CHR ''/''"
      unfolding p by (rule b)
    have 2: "hd (route_names r) \<noteq> [] \<and> hd (hd (route_names r)) \<noteq> CHR ''/''
              \<longrightarrow> p = py_join ''/'' (route_names r)"
      unfolding p using c[of r] by (intro impI) (elim conjE)
    have 3: "\<forall>bs s2. item_content W site drive (item_id (snd r)) = Inr bs
                \<and> s2 ''RAG_DATA_ROOT'' \<noteq> Some Dir
              \<longrightarrow> uploadData W (base @ ''/'' @ p) (base @ ''/'' @ p @ ''.meta.json'') site drive
                    (snd r) p si lib ''RAG_DATA_ROOT'' s2
                  = Done (s2(''RAG_DATA_ROOT'' \<mapsto> File (build_metadata (machine W) (snd r) p
                        (extract_text (doc_parsers W) (item_name (snd r)) bs) si lib)))"
      by (intro allI impI, elim conjE, rule d)
    have 4: "map_of (build_metadata H (snd r) p x si lib) ''sharePointPath'' = Some (PStr p)"
      by (rule e)
    have 5: "CHR ''.'' \<in> set (item_name (snd r)) \<longrightarrow>
              map_of (build_metadata H (snd r) p x si lib) ''fileExtension''
                = Some (PStr (py_lower (after_last_dot (item_name (snd r)))))
              \<and> (\<forall>c\<in>set (py_lower (after_last_dot (item_name (snd r)))). \<not> is_capital c)
              \<and> list_all2 (\<lambda>a b. if is_capital a then (of_char b :: nat) = of_char a + 32
                                  else b = a)
                   (after_last_dot (item_name (snd r)))
                   (py_lower (after_last_dot (item_name (snd r))))"
      by (intro impI conjI, rule f, assumption, rule py_lower_no_capital, rule py_lower_letters)
    show "(p = [] \<or> hd p \<noteq> CHR ''/'')
         \<and> (hd (route_names r) \<noteq> [] \<and> hd (hd (route_names r)) \<noteq> CHR ''/''
              \<longrightarrow> p = py_join ''/'' (route_names r))
         \<and> (\<forall>bs s2. item_content W site drive (item_id (snd r)) = Inr bs
                \<and> s2 ''RAG_DATA_ROOT'' \<noteq> Some Dir
              \<longrightarrow> uploadData W (base @ ''/'' @ p) (base @ ''/'' @ p @ ''.meta.json'') site drive
                    (snd r) p si lib ''RAG_DATA_ROOT'' s2
                  = Done (s2(''RAG_DATA_ROOT'' \<mapsto> File (build_metadata (machine W) (snd r) p
                        (extract_text (doc_parsers W) (item_name (snd r)) bs) si lib))))
         \<and> map_of (build_metadata H (snd r) p x si lib) ''sharePointPath'' = Some (PStr p)
         \<and> (CHR ''.'' \<in> set (item_name (snd r)) \<longrightarrow>
              map_of (build_metadata H (snd r) p x si lib) ''fileExtension''
                = Some (PStr (py_lower (after_last_dot (item_name (snd r)))))
              \<and> (\<forall>c\<in>set (py_lower (after_last_dot (item_name (snd r)))). \<not> is_capital c)
              \<and> list_all2 (\<lambda>a b. if is_capital a then (of_char b :: nat) = of_char a + 32
                                  else b = a)
                   (after_last_dot (item_name (snd r)))
                   (py_lower (after_last_dot (item_name (snd r)))))"
      by (rule conjI[OF 1 conjI[OF 2 conjI[OF 3 conjI[OF 4 5]]]])
  qed
qed

theorem walk_record_paths_witness:
  "token sample_world = Inr ''t''
   \<and> routes [FolderN (plain_item ''folderX'' ''i2'')
               (Listing [FileN (plain_item ''file.txt'' ''i3''), FileN (plain_item ''Report.TXT'' ''i6'')]),
             FileN (plain_item ''b.txt'' ''i4'')]
       = [([plain_item ''folderX'' ''i2''], plain_item ''file.txt'' ''i3''),
          ([plain_item ''folderX'' ''i2''], plain_item ''Report.TXT'' ''i6''),
          ([], plain_item ''b.txt'' ''i4'')]
   \<and> lstrip_slash (py_join ''/'' (route_names ([plain_item ''folderX'' ''i2''], plain_item ''file.txt'' ''i3'')))
       = ''folderX/file.txt''
   \<and> map_of (build_metadata sample_host (plain_item ''file.txt'' ''i3'') ''folderX/file.txt''
               (Some [104, 105]) sample_site ''Documents'') ''sharePointPath''
       = Some (PStr ''folderX/file.txt'')
   \<and> map_of (build_metadata sample_host (plain_item ''file.txt'' ''i3'') ''folderX/file.txt''
               (Some [104, 105]) sample_site ''Documents'') ''fileExtension''
       = Some (PStr ''txt'')
   \<and> lstrip_slash (py_join ''/'' (route_names ([plain_item ''folderX'' ''i2''], plain_item ''Report.TXT'' ''i6'')))
       = ''folderX/Report.TXT''
   \<and> map_of (build_metadata sample_host (plain_item ''Report.TXT'' ''i6'') ''folderX/Report.TXT''
               (Some [104, 105]) sample_site ''Documents'') ''sharePointPath''
       = Some (PStr ''folderX/Report.TXT'')
   \<and> map_of (build_metadata sample_host (plain_item ''Report.TXT'' ''i6'') ''folderX/Report.TXT''
               (Some [104, 105]) sample_site ''Documents'') ''fileExtension''
       = Some (PStr ''txt'')"
proof -
  let ?items = "[FolderN (plain_item ''folderX'' ''i2'')
                   (Listing [FileN (plain_item ''file.txt'' ''i3''), FileN (plain_item ''Report.TXT'' ''i6'')]),
                 FileN (plain_item ''b.txt'' ''i4'')]"
  let ?r = "([plain_item ''folderX'' ''i2''], plain_item ''file.txt'' ''i3'')"
  let ?q = "([plain_item ''folderX'' ''i2''], plain_item ''Report.TXT'' ''i6'')"
  have t: "token sample_world = Inr ''t''" by (simp add: sample_world_fields)
  have rs: "routes ?items = [?r, ?q, ([], plain_item ''b.txt'' ''i4'')]" by simp
  have n: "route_names ?r = [''folderX'', ''file.txt'']"
    by (simp add: route_names_def plain_item_fields)
  have n2: "route_names ?q = [''folderX'', ''Report.TXT'']"
    by (simp add: route_names_def plain_item_fields)
  have p: "lstrip_slash (py_join ''/'' (route_names ?r)) = ''folderX/file.txt''"
    by (simp add: n lstrip_slash_def)
  have p2: "lstrip_slash (py_join ''/'' (route_names ?q)) = ''folderX/Report.TXT''"
    by (simp add: n2 lstrip_slash_def)
  have m: "?r \<in> set (routes ?items)" by (simp add: rs)
  have m2: "?q \<in> set (routes ?items)" by (simp add: rs)
  have dot: "CHR ''.'' \<in> set (item_name (snd ?r))" by (simp add: plain_item_fields)
  have dot2: "CHR ''.'' \<in> set (item_name (snd ?q))" by (simp add: plain_item_fields)
  have ext: "py_lower (after_last_dot (item_name (snd ?r))) = ''txt''"
    by (simp add: plain_item_fields after_last_dot_def py_lower_def lower_char_def)
  have ext2: "py_lower (after_last_dot (item_name (snd ?q))) = ''txt''"
    by (simp add: plain_item_fields after_last_dot_def py_lower_def lower_char_def char_of_eq_iff)
  note w = walk_record_paths[OF t, of "''s2''" "''d2''" ?items sample_site "''Documents''"
             "''Team/Documents''" Map.empty sample_host "Some [104, 105]", THEN conjunct2,
             rule_format, OF m p[symmetric]]
  note w2 = walk_record_paths[OF t, of "''s2''" "''d2''" ?items sample_site "''Documents''"
             "''Team/Documents''" Map.empty sample_host "Some [104, 105]", THEN conjunct2,
             rule_format, OF m2 p2[symmetric]]
  from w have 1: "map_of (build_metadata sample_host (snd ?r) ''folderX/file.txt''
               (Some [104, 105]) sample_site ''Documents'') ''sharePointPath''
       = Some (PStr ''folderX/file.txt'')" by blast
  from w dot ext have 2: "map_of (build_metadata sample_host (snd ?r) ''folderX/file.txt''
               (Some [104, 105]) sample_site ''Documents'') ''fileExtension''
       = Some (PStr ''txt'')" by simp
  from w2 have 3: "map_of (build_metadata sample_host (snd ?q) ''folderX/Report.TXT''
               (Some [104, 105]) sample_site ''Documents'') ''sharePointPath''
       = Some (PStr ''folderX/Report.TXT'')" by blast
  from w2 dot2 ext2 have 4: "map_of (build_metadata sample_host (snd ?q) ''folderX/Report.TXT''
               (Some [104, 105]) sample_site ''Documents'') ''fileExtension''
       = Some (PStr ''txt'')" by simp
  from t rs p p2 1 2 3 4 show ?thesis by simp
qed

end
